theory Spec2Isabelle
  imports Main "HOL-Library.Sublist"
begin

section \<open>Data model of the variable fetcher\<close>

text \<open>
  The embedding follows \<^verbatim>\<open>defaultFetchVariablesStrategy.ts\<close>. A rejected protocol
  request (the awaited promise throws) is an error value.
\<close>

datatype error = ProtocolRequestFailed string

text \<open>The fields of a debug-protocol variable that the fetcher reads.\<close>

record VariablePresentationHint =
  lazy :: "bool option"

record Variable =
  name :: string
  valueString :: string
  variablesReference :: int
  presentationHint :: "VariablePresentationHint option"

text \<open>
  Modelled from the spec: \<^verbatim>\<open>VariablesEntity\<close> and \<^verbatim>\<open>toVariablesEntity\<close> are
  declared outside the source file. A node keeps the handle of the request that produced
  it (the request arguments hold nothing else) and the ordered child descriptors of the
  response; the source reads only its field \<^verbatim>\<open>variables\<close>.
\<close>

record VariablesEntity =
  reference :: int
  variables :: "Variable list"

definition toVariablesEntity :: "int \<Rightarrow> Variable list \<Rightarrow> VariablesEntity" where
  "toVariablesEntity args body_variables = \<lparr>reference = args, variables = body_variables\<rparr>"

text \<open>
  The context argument. The stack frame and scope entities are declared elsewhere and
  never inspected, so they are type parameters. Optional fields are options.
\<close>

record ('frame, 'scope) FetchVariablesContextArg =
  sessionId :: string
  frame :: 'frame
  refsToFetch :: "int list"
  variable :: "VariablesEntity option"
  scope :: "'scope option"
  force :: "bool option"

section \<open>Effects and collaborators\<close>

text \<open>
  The two side effects of the function, in the order they happen: a \<^verbatim>\<open>variables\<close>
  request sent for a handle of a session, and an \<^verbatim>\<open>addVariables\<close> action dispatched
  for a session with its batch of nodes.
\<close>

datatype effect = Request string int | Dispatch string "VariablesEntity list"

text \<open>
  The world the function runs in: the application state that \<^verbatim>\<open>api.getState()\<close>
  returns, and the effects performed so far.
\<close>

record 'app World =
  app :: 'app
  effects :: "effect list"

text \<open>
  What the source imports and does not define is a parameter: the debug adapter (its
  answer may depend on everything that happened before the request), the two selectors,
  the identifier list of the session's variables, and the reducer that the dispatched
  \<^verbatim>\<open>addVariables\<close> action runs. The session that the context names exists. The
  array that \<^verbatim>\<open>selectReferences\<close> returns belongs to the invocation that asked for
  it: what one invocation pushes onto its array is not seen through the array of another.
\<close>

record ('app, 'session) Collaborators =
  debugRequestAsync :: "effect list \<Rightarrow> string \<Rightarrow> int \<Rightarrow> error + Variable list"
  selectSessionState :: "'app \<Rightarrow> string \<Rightarrow> 'session"
  selectReferences :: "'session \<Rightarrow> int list"
  variables_ids :: "'session \<Rightarrow> string list"
  addVariables :: "string \<Rightarrow> VariablesEntity list \<Rightarrow> 'app \<Rightarrow> 'app"

definition request :: "string \<Rightarrow> int \<Rightarrow> 'app World \<Rightarrow> 'app World" where
  "request sid ref w = w\<lparr>effects := effects w @ [Request sid ref]\<rparr>"

definition dispatch_addVariables ::
  "('app, 'session) Collaborators \<Rightarrow> string \<Rightarrow> VariablesEntity list \<Rightarrow> 'app World \<Rightarrow> 'app World" where
  "dispatch_addVariables api sid vs w =
     w\<lparr>app := addVariables api sid vs (app w), effects := effects w @ [Dispatch sid vs]\<rparr>"

section \<open>The fetch strategy\<close>

text \<open>\<^verbatim>\<open>Array.prototype.includes\<close> and the truthiness of an optional boolean.\<close>

primrec array_includes :: "'a list \<Rightarrow> 'a \<Rightarrow> bool" where
  "array_includes [] y = False"
| "array_includes (x # xs) y = (if x = y then True else array_includes xs y)"

definition truthy :: "bool option \<Rightarrow> bool" where
  "truthy b = (case b of None \<Rightarrow> False | Some x \<Rightarrow> x)"

text \<open>\<^verbatim>\<open>$var.presentationHint?.lazy\<close>: undefined when the hint is absent.\<close>

definition presentationHint_lazy :: "Variable \<Rightarrow> bool option" where
  "presentationHint_lazy v = (case presentationHint v of None \<Rightarrow> None | Some h \<Rightarrow> lazy h)"

text \<open>The predicate of the filter that selects the children to fetch (source lines 80 to 84).\<close>

definition childFilter ::
  "('f, 's) FetchVariablesContextArg \<Rightarrow> int list \<Rightarrow> string list \<Rightarrow> Variable \<Rightarrow> bool" where
  "childFilter ctx refsFetched ids v =
     (variablesReference v > 0
      \<and> \<not> array_includes refsFetched (variablesReference v)
      \<and> (truthy (force ctx) \<or> \<not> truthy (presentationHint_lazy v))
      \<and> \<not> array_includes ids (valueString v))"

definition childRefsToFetch ::
  "('f, 's) FetchVariablesContextArg \<Rightarrow> int list \<Rightarrow> string list \<Rightarrow> VariablesEntity \<Rightarrow> int list" where
  "childRefsToFetch ctx refsFetched ids varEntity =
     map variablesReference (filter (childFilter ctx refsFetched ids) (variables varEntity))"

definition childContextArgs ::
  "('f, 's) FetchVariablesContextArg \<Rightarrow> int list \<Rightarrow> VariablesEntity
     \<Rightarrow> ('f, 's) FetchVariablesContextArg" where
  "childContextArgs ctx childRefs varEntity =
     ctx\<lparr>refsToFetch := childRefs, variable := Some varEntity\<rparr>"

text \<open>
  The function and its \<^verbatim>\<open>for\<close> loop. \<open>forEachRef\<close> is the loop over the handles that
  are left, with the locals of the invocation as arguments: the session read at the start
  of the invocation, the array \<open>refsFetched\<close>, and the array \<open>vars\<close> of nodes collected
  so far (\<^verbatim>\<open>variables\<close> in the source). Depths are integers, and a caller that
  relies on the defaults passes \<open>maxDepth = 10\<close> and \<open>currentDepth = 0\<close>.
\<close>

function defaultFetchVariablesStrategy ::
    "('app, 'session) Collaborators \<Rightarrow> ('f, 's) FetchVariablesContextArg \<Rightarrow> int \<Rightarrow> int
      \<Rightarrow> 'app World \<Rightarrow> 'app World \<times> (error + VariablesEntity list)"
  and forEachRef ::
    "('app, 'session) Collaborators \<Rightarrow> ('f, 's) FetchVariablesContextArg \<Rightarrow> int \<Rightarrow> int
      \<Rightarrow> 'session \<Rightarrow> int list \<Rightarrow> int list \<Rightarrow> VariablesEntity list
      \<Rightarrow> 'app World \<Rightarrow> 'app World \<times> (error + VariablesEntity list)"
where
  "defaultFetchVariablesStrategy api ctx maxDepth currentDepth w =
     (let session = selectSessionState api (app w) (sessionId ctx);
          refsFetched = selectReferences api session
      in forEachRef api ctx maxDepth currentDepth session refsFetched (refsToFetch ctx) [] w)"
| "forEachRef api ctx maxDepth currentDepth session refsFetched [] vars w = (w, Inr vars)"
| "forEachRef api ctx maxDepth currentDepth session refsFetched (ref # rest) vars w =
     (if ref = 0
      then forEachRef api ctx maxDepth currentDepth session refsFetched rest vars w
      else
        (case debugRequestAsync api (effects w) (sessionId ctx) ref of
           Inl err \<Rightarrow> (request (sessionId ctx) ref w, Inl err)
         | Inr body_variables \<Rightarrow>
             (let refsFetched' = refsFetched @ [ref];
                  varEntity = toVariablesEntity ref body_variables;
                  w' = dispatch_addVariables api (sessionId ctx) [varEntity]
                         (request (sessionId ctx) ref w);
                  vars' = vars @ [varEntity]
              in if currentDepth \<ge> maxDepth
                 then forEachRef api ctx maxDepth currentDepth session refsFetched' rest vars' w'
                 else
                   (let childRefs = childRefsToFetch ctx refsFetched'
                                      (variables_ids api session) varEntity;
                        childCtx = childContextArgs ctx childRefs varEntity
                    in case defaultFetchVariablesStrategy api childCtx maxDepth
                              (currentDepth + 1) w' of
                         (w'', Inl err) \<Rightarrow> (w'', Inl err)
                       | (w'', Inr childVars) \<Rightarrow>
                           forEachRef api ctx maxDepth currentDepth session refsFetched' rest
                             (vars' @ childVars) w''))))"
  by pat_completeness auto

termination
  apply (relation "inv_image (less_than <*lex*> less_than)
     (\<lambda>x. case x of
        Inl (api, ctx, maxDepth, currentDepth, w) \<Rightarrow>
          (nat (maxDepth - currentDepth), Suc (length (refsToFetch ctx)))
      | Inr (api, ctx, maxDepth, currentDepth, session, refsFetched, refs, vars, w) \<Rightarrow>
          (nat (maxDepth - currentDepth), length refs))")
  apply (auto simp: childContextArgs_def)
  done


section \<open>Observations on a run\<close>

text \<open>A request that is answered, followed by the publication of its node.\<close>

definition resolve ::
  "('app, 'session) Collaborators \<Rightarrow> string \<Rightarrow> int \<Rightarrow> Variable list \<Rightarrow> 'app World
     \<Rightarrow> 'app World" where
  "resolve api sid ref body w =
     dispatch_addVariables api sid [toVariablesEntity ref body] (request sid ref w)"

text \<open>The effects that a run from \<open>w\<close> to \<open>w'\<close> added.\<close>

definition new_effects :: "'app World \<Rightarrow> 'app World \<Rightarrow> effect list" where
  "new_effects w w' = drop (length (effects w)) (effects w')"

fun requested :: "effect list \<Rightarrow> int list" where
  "requested [] = []"
| "requested (Request sid h # evs) = h # requested evs"
| "requested (Dispatch sid vs # evs) = requested evs"

fun published :: "effect list \<Rightarrow> VariablesEntity list" where
  "published [] = []"
| "published (Request sid h # evs) = published evs"
| "published (Dispatch sid vs # evs) = vs @ published evs"

text \<open>The effects of resolving the nodes \<open>es\<close> one after the other.\<close>

definition events_of :: "string \<Rightarrow> VariablesEntity list \<Rightarrow> effect list" where
  "events_of sid es = concat (map (\<lambda>e. [Request sid (reference e), Dispatch sid [e]]) es)"

text \<open>Each node of \<open>es\<close> is the adapter's answer to the request for its handle.\<close>

fun answered ::
  "('app, 'session) Collaborators \<Rightarrow> string \<Rightarrow> effect list \<Rightarrow> VariablesEntity list \<Rightarrow> bool" where
  "answered api sid hist [] = True"
| "answered api sid hist (e # es) =
     (debugRequestAsync api hist sid (reference e) = Inr (variables e)
      \<and> answered api sid (hist @ [Request sid (reference e), Dispatch sid [e]]) es)"

text \<open>The store after the nodes \<open>es\<close> were published one by one.\<close>

definition publish_all ::
  "('app, 'session) Collaborators \<Rightarrow> string \<Rightarrow> VariablesEntity list \<Rightarrow> 'app \<Rightarrow> 'app" where
  "publish_all api sid es a = foldl (\<lambda>a e. addVariables api sid [e] a) a es"

text \<open>
  The shape of every run: it resolves the nodes \<open>es\<close> in order, and either returns them
  after the nodes it started with, or stops at a request that the adapter rejects.
\<close>

definition shape ::
  "('app, 'session) Collaborators \<Rightarrow> string \<Rightarrow> 'app World \<Rightarrow> VariablesEntity list
     \<Rightarrow> VariablesEntity list \<Rightarrow> 'app World \<times> (error + VariablesEntity list) \<Rightarrow> bool" where
  "shape api sid w vars es out =
     (app (fst out) = publish_all api sid es (app w)
      \<and> answered api sid (effects w) es
      \<and> (\<forall>e \<in> set es. reference e \<noteq> 0)
      \<and> (case snd out of
            Inr vs \<Rightarrow> vs = vars @ es \<and> effects (fst out) = effects w @ events_of sid es
          | Inl err \<Rightarrow>
              (\<exists>h. h \<noteq> 0
                 \<and> effects (fst out) = effects w @ events_of sid es @ [Request sid h]
                 \<and> debugRequestAsync api (effects w @ events_of sid es) sid h = Inl err)))"

text \<open>
  The order of publication: every request that is answered is followed at once by the
  dispatch of its node, and a request that is rejected is the last effect.
\<close>

fun published_at_once :: "('app, 'session) Collaborators \<Rightarrow> effect list \<Rightarrow> effect list \<Rightarrow> bool" where
  "published_at_once api hist [] = True"
| "published_at_once api hist (Dispatch sid vs # evs) = False"
| "published_at_once api hist (Request sid h # evs) =
     (case debugRequestAsync api hist sid h of
        Inl err \<Rightarrow> evs = []
      | Inr body \<Rightarrow>
          (case evs of
             Dispatch sid' vs # evs' \<Rightarrow>
               sid' = sid \<and> vs = [toVariablesEntity h body]
               \<and> published_at_once api (hist @ [Request sid h, Dispatch sid' vs]) evs'
           | _ \<Rightarrow> False))"

section \<open>The algorithm in the words of the specification\<close>

text \<open>
  The tree of fetches: a node and the trees fetched for its eligible children. The
  specification returns the trees flattened, every node before its descendants and
  before the tree of the next handle.
\<close>

datatype fetch_tree = Fetched (node: VariablesEntity) (subtrees: "fetch_tree list")

fun preorder :: "fetch_tree \<Rightarrow> VariablesEntity list" where
  "preorder (Fetched e ts) = e # concat (map preorder ts)"

text \<open>
  Steps 1 to 8 of the specified algorithm, building the forest: a zero handle is skipped,
  a rejected request aborts, a node at the depth bound has no subtrees, and the fetcher
  recurses only into a non-empty list of eligible children.
\<close>

function spec_fetch ::
    "('app, 'session) Collaborators \<Rightarrow> ('f, 's) FetchVariablesContextArg \<Rightarrow> int \<Rightarrow> int
      \<Rightarrow> 'app World \<Rightarrow> 'app World \<times> (error + fetch_tree list)"
  and spec_handles ::
    "('app, 'session) Collaborators \<Rightarrow> ('f, 's) FetchVariablesContextArg \<Rightarrow> int \<Rightarrow> int
      \<Rightarrow> 'session \<Rightarrow> int list \<Rightarrow> int list
      \<Rightarrow> 'app World \<Rightarrow> 'app World \<times> (error + fetch_tree list)"
where
  "spec_fetch api ctx maxDepth currentDepth w =
     spec_handles api ctx maxDepth currentDepth
       (selectSessionState api (app w) (sessionId ctx))
       (selectReferences api (selectSessionState api (app w) (sessionId ctx)))
       (refsToFetch ctx) w"
| "spec_handles api ctx maxDepth currentDepth session fetched [] w = (w, Inr [])"
| "spec_handles api ctx maxDepth currentDepth session fetched (h # hs) w =
     (if h = 0 then spec_handles api ctx maxDepth currentDepth session fetched hs w
      else
        (case debugRequestAsync api (effects w) (sessionId ctx) h of
           Inl err \<Rightarrow> (request (sessionId ctx) h w, Inl err)
         | Inr body \<Rightarrow>
             (let n = toVariablesEntity h body;
                  w1 = resolve api (sessionId ctx) h body w;
                  eligible = (if currentDepth \<ge> maxDepth then []
                              else childRefsToFetch ctx (fetched @ [h])
                                     (variables_ids api session) n)
              in case (if eligible = [] then (w1, Inr [])
                       else spec_fetch api (childContextArgs ctx eligible n) maxDepth
                              (currentDepth + 1) w1) of
                   (w2, Inl err) \<Rightarrow> (w2, Inl err)
                 | (w2, Inr kids) \<Rightarrow>
                     (case spec_handles api ctx maxDepth currentDepth session (fetched @ [h]) hs w2 of
                        (w3, Inl err) \<Rightarrow> (w3, Inl err)
                      | (w3, Inr ts) \<Rightarrow> (w3, Inr (Fetched n kids # ts))))))"
  by pat_completeness auto

termination
  apply (relation "inv_image (less_than <*lex*> less_than)
     (\<lambda>x. case x of
        Inl (api, ctx, maxDepth, currentDepth, w) \<Rightarrow>
          (nat (maxDepth - currentDepth), Suc (length (refsToFetch ctx)))
      | Inr (api, ctx, maxDepth, currentDepth, session, fetched, hs, w) \<Rightarrow>
          (nat (maxDepth - currentDepth), length hs))")
  apply (auto simp: childContextArgs_def split: if_splits)
  done

text \<open>The result of the specified algorithm, flattened after the nodes \<open>vars\<close>.\<close>

definition flattened ::
  "VariablesEntity list \<Rightarrow> 'w \<times> (error + fetch_tree list) \<Rightarrow> 'w \<times> (error + VariablesEntity list)" where
  "flattened vars out =
     (case out of
        (w', Inl err) \<Rightarrow> (w', Inl err)
      | (w', Inr forest) \<Rightarrow> (w', Inr (vars @ concat (map preorder forest))))"

text \<open>
  Steps 1 to 5 and 8 of the specified algorithm, as they apply to a node at the depth
  bound: each handle that is not zero is requested, its node is published and returned,
  and no children are computed; a rejected request aborts.
\<close>

fun fetch_without_children ::
  "('app, 'session) Collaborators \<Rightarrow> string \<Rightarrow> int list \<Rightarrow> 'app World
     \<Rightarrow> 'app World \<times> (error + VariablesEntity list)" where
  "fetch_without_children api sid [] w = (w, Inr [])"
| "fetch_without_children api sid (h # hs) w =
     (if h = 0 then fetch_without_children api sid hs w
      else
        (case debugRequestAsync api (effects w) sid h of
           Inl err \<Rightarrow> (request sid h w, Inl err)
         | Inr body \<Rightarrow>
             (case fetch_without_children api sid hs (resolve api sid h body w) of
                (w', Inl err) \<Rightarrow> (w', Inl err)
              | (w', Inr vs) \<Rightarrow> (w', Inr (toVariablesEntity h body # vs)))))"

section \<open>A store and an adapter for worked examples\<close>

text \<open>
  Modelled from the spec: the session store is outside the source file. This one holds
  the identity strings known to the session and the published nodes in order; the
  references already fetched are the handles of the published nodes, and publishing
  appends. Its adapter answers from a table and rejects a handle that is not in it.
\<close>

record SessionVariables =
  ids :: "string list"
  entities :: "VariablesEntity list"

definition exampleApi ::
  "(int \<times> Variable list) list \<Rightarrow> (SessionVariables, SessionVariables) Collaborators" where
  "exampleApi answers =
     \<lparr>debugRequestAsync = (\<lambda>hist sid ref.
         case map_of answers ref of
           None \<Rightarrow> Inl (ProtocolRequestFailed ''unknown reference'')
         | Some body \<Rightarrow> Inr body),
      selectSessionState = (\<lambda>a sid. a),
      selectReferences = (\<lambda>s. map reference (entities s)),
      variables_ids = ids,
      addVariables = (\<lambda>sid vs a. a\<lparr>entities := entities a @ vs\<rparr>)\<rparr>"

definition var :: "string \<Rightarrow> string \<Rightarrow> int \<Rightarrow> Variable" where
  "var n v r = \<lparr>name = n, valueString = v, variablesReference = r, presentationHint = None\<rparr>"

definition lazy_var :: "string \<Rightarrow> string \<Rightarrow> int \<Rightarrow> Variable" where
  "lazy_var n v r =
     \<lparr>name = n, valueString = v, variablesReference = r,
      presentationHint = Some \<lparr>lazy = Some True\<rparr>\<rparr>"

definition exampleCtx :: "int list \<Rightarrow> (nat, string) FetchVariablesContextArg" where
  "exampleCtx refs =
     \<lparr>sessionId = ''s1'', frame = 0, refsToFetch = refs, variable = None, scope = None,
      force = None\<rparr>"

definition emptyWorld :: "SessionVariables World" where
  "emptyWorld = \<lparr>app = \<lparr>ids = [], entities = []\<rparr>, effects = []\<rparr>"

text \<open>The answers of the adapter in the examples, a store that holds a node for
  reference 7, and a context that was reached from a scope.\<close>

definition scenarioAnswers :: "(int \<times> Variable list) list" where
  "scenarioAnswers = [(100, [var ''x'' ''5'' 0, var ''arr'' ''[1,2]'' 200]), (200, [])]"

definition chainAnswers :: "(int \<times> Variable list) list" where
  "chainAnswers =
     [(1, [var ''n'' ''5'' 0]), (2, [var ''o'' ''Obj@1'' 3]), (3, [var ''p'' ''Obj@2'' 4]), (4, [])]"

definition backRefAnswers :: "(int \<times> Variable list) list" where
  "backRefAnswers =
     [(1, []), (2, [var ''back'' ''o'' 1, var ''self'' ''o'' 2, var ''fresh'' ''o'' 3]), (3, [])]"

definition fetchedWorld :: "SessionVariables World" where
  "fetchedWorld = \<lparr>app = \<lparr>ids = [], entities = [\<lparr>reference = 7, variables = []\<rparr>]\<rparr>, effects = []\<rparr>"

definition scopedCtx :: "(nat, string) FetchVariablesContextArg" where
  "scopedCtx = (exampleCtx [100])\<lparr>scope := Some ''Locals''\<rparr>"

text \<open>A store that knows the identity \<open>String@8\<close> and holds a node for reference 7,
  and answers with children of every kind.\<close>

definition knownWorld :: "SessionVariables World" where
  "knownWorld =
     \<lparr>app = \<lparr>ids = [''String@8''], entities = [\<lparr>reference = 7, variables = []\<rparr>]\<rparr>,
      effects = []\<rparr>"

definition filterAnswers :: "(int \<times> Variable list) list" where
  "filterAnswers =
     [(1, [var ''a'' ''1'' 0, var ''b'' ''2'' 7, lazy_var ''c'' ''3'' 8, var ''d'' ''String@8'' 9,
           var ''e'' ''5'' 10, var ''self'' ''6'' 1]),
      (8, []), (10, [])]"

section \<open>Unfolding the loop\<close>

text \<open>
  One equation for each way an iteration of the loop can go, and the induction rule that
  follows them.
\<close>

lemma forEachRef_zero [simp]:
  "forEachRef api ctx md cd s rf (0 # rest) vars w = forEachRef api ctx md cd s rf rest vars w"
  by simp

lemma forEachRef_failed:
  "ref \<noteq> 0 \<Longrightarrow> debugRequestAsync api (effects w) (sessionId ctx) ref = Inl e \<Longrightarrow>
   forEachRef api ctx md cd s rf (ref # rest) vars w = (request (sessionId ctx) ref w, Inl e)"
  by simp

lemma forEachRef_cut:
  "ref \<noteq> 0 \<Longrightarrow> debugRequestAsync api (effects w) (sessionId ctx) ref = Inr body \<Longrightarrow> md \<le> cd \<Longrightarrow>
   forEachRef api ctx md cd s rf (ref # rest) vars w =
     forEachRef api ctx md cd s (rf @ [ref]) rest (vars @ [toVariablesEntity ref body])
       (resolve api (sessionId ctx) ref body w)"
  by (simp add: resolve_def Let_def)

lemma forEachRef_recurse:
  "ref \<noteq> 0 \<Longrightarrow> debugRequestAsync api (effects w) (sessionId ctx) ref = Inr body \<Longrightarrow> cd < md \<Longrightarrow>
   forEachRef api ctx md cd s rf (ref # rest) vars w =
     (case defaultFetchVariablesStrategy api
             (childContextArgs ctx
                (childRefsToFetch ctx (rf @ [ref]) (variables_ids api s) (toVariablesEntity ref body))
                (toVariablesEntity ref body))
             md (cd + 1) (resolve api (sessionId ctx) ref body w) of
        (w'', Inl err) \<Rightarrow> (w'', Inl err)
      | (w'', Inr childVars) \<Rightarrow>
          forEachRef api ctx md cd s (rf @ [ref]) rest
            (vars @ toVariablesEntity ref body # childVars) w'')"
  by (simp add: resolve_def Let_def del: defaultFetchVariablesStrategy.simps)

lemma strategy_unfold:
  "defaultFetchVariablesStrategy api ctx md cd w =
     forEachRef api ctx md cd (selectSessionState api (app w) (sessionId ctx))
       (selectReferences api (selectSessionState api (app w) (sessionId ctx)))
       (refsToFetch ctx) [] w"
  by (simp add: Let_def)

declare defaultFetchVariablesStrategy.simps [simp del] forEachRef.simps(2) [simp del]

lemma strategy_induct [case_names run nil zero failed cut recurse]:
  assumes S: "\<And>api ctx md cd w.
        Q api ctx md cd (selectSessionState api (app w) (sessionId ctx))
          (selectReferences api (selectSessionState api (app w) (sessionId ctx)))
          (refsToFetch ctx) [] w \<Longrightarrow> P api ctx md cd w"
    and D: "\<And>api ctx md cd s rf vars w. Q api ctx md cd s rf [] vars w"
    and Z: "\<And>api ctx md cd s rf rest vars w.
        Q api ctx md cd s rf rest vars w \<Longrightarrow> Q api ctx md cd s rf (0 # rest) vars w"
    and F: "\<And>api ctx md cd s rf ref rest vars w e.
        ref \<noteq> 0 \<Longrightarrow> debugRequestAsync api (effects w) (sessionId ctx) ref = Inl e \<Longrightarrow>
        Q api ctx md cd s rf (ref # rest) vars w"
    and C: "\<And>api ctx md cd s rf ref rest vars w body.
        ref \<noteq> 0 \<Longrightarrow> debugRequestAsync api (effects w) (sessionId ctx) ref = Inr body \<Longrightarrow>
        md \<le> cd \<Longrightarrow>
        Q api ctx md cd s (rf @ [ref]) rest (vars @ [toVariablesEntity ref body])
          (resolve api (sessionId ctx) ref body w) \<Longrightarrow>
        Q api ctx md cd s rf (ref # rest) vars w"
    and R: "\<And>api ctx md cd s rf ref rest vars w body.
        ref \<noteq> 0 \<Longrightarrow> debugRequestAsync api (effects w) (sessionId ctx) ref = Inr body \<Longrightarrow>
        cd < md \<Longrightarrow>
        P api (childContextArgs ctx
                (childRefsToFetch ctx (rf @ [ref]) (variables_ids api s) (toVariablesEntity ref body))
                (toVariablesEntity ref body))
          md (cd + 1) (resolve api (sessionId ctx) ref body w) \<Longrightarrow>
        (\<And>w'' childVars.
           defaultFetchVariablesStrategy api
             (childContextArgs ctx
                (childRefsToFetch ctx (rf @ [ref]) (variables_ids api s) (toVariablesEntity ref body))
                (toVariablesEntity ref body))
             md (cd + 1) (resolve api (sessionId ctx) ref body w) = (w'', Inr childVars) \<Longrightarrow>
           Q api ctx md cd s (rf @ [ref]) rest (vars @ toVariablesEntity ref body # childVars) w'') \<Longrightarrow>
        Q api ctx md cd s rf (ref # rest) vars w"
  shows "P api ctx md cd w" and "Q api ctx md cd s rf refs vars w"
proof (induction api ctx md cd w and api ctx md cd s rf refs vars w
       rule: defaultFetchVariablesStrategy_forEachRef.induct)
  case (1 api ctx maxDepth currentDepth w)
  then show ?case by (intro S) simp
next
  case (2 api ctx maxDepth currentDepth session refsFetched vars w)
  show ?case by (rule D)
next
  case (3 api ctx maxDepth currentDepth session refsFetched ref rest vars w)
  show ?case
  proof (cases "ref = 0")
    case True
    with 3(1) show ?thesis using Z by simp
  next
    case nz: False
    show ?thesis
    proof (cases "debugRequestAsync api (effects w) (sessionId ctx) ref")
      case (Inl e)
      with nz show ?thesis by (rule F)
    next
      case (Inr body)
      show ?thesis
      proof (cases "maxDepth \<le> currentDepth")
        case True
        from 3(2)[OF nz Inr refl refl refl refl True]
        show ?thesis using C[OF nz Inr True] by (simp add: resolve_def)
      next
        case False
        then have lt: "currentDepth < maxDepth" by simp
        show ?thesis
        proof (rule R[OF nz Inr lt])
          from 3(3)[OF nz Inr refl refl refl refl False refl refl]
          show "P api (childContextArgs ctx
                (childRefsToFetch ctx (refsFetched @ [ref]) (variables_ids api session) (toVariablesEntity ref body))
                (toVariablesEntity ref body))
            maxDepth (currentDepth + 1) (resolve api (sessionId ctx) ref body w)"
            by (simp add: resolve_def)
        next
          fix w'' childVars
          assume run: "defaultFetchVariablesStrategy api
             (childContextArgs ctx
                (childRefsToFetch ctx (refsFetched @ [ref]) (variables_ids api session) (toVariablesEntity ref body))
                (toVariablesEntity ref body))
             maxDepth (currentDepth + 1) (resolve api (sessionId ctx) ref body w) = (w'', Inr childVars)"
          from 3(4)[OF nz Inr refl refl refl refl False refl refl _ refl, of w'' childVars] run
          show "Q api ctx maxDepth currentDepth session (refsFetched @ [ref]) rest
                  (vars @ toVariablesEntity ref body # childVars) w''"
            by (simp add: resolve_def)
        qed
      qed
    qed
  qed
qed

lemma strategy_nil:
  "refsToFetch ctx = [] \<Longrightarrow> defaultFetchVariablesStrategy api ctx md cd w = (w, Inr [])"
  by (simp add: strategy_unfold)

text \<open>The loop over a list that is split in two: the array of fetched references grows
  by the handles of the first part that are not zero.\<close>

lemma forEachRef_append:
  "forEachRef api ctx md cd s rf (pre @ post) vars w =
     (case forEachRef api ctx md cd s rf pre vars w of
        (w1, Inl err) \<Rightarrow> (w1, Inl err)
      | (w1, Inr vars1) \<Rightarrow>
          forEachRef api ctx md cd s (rf @ filter (\<lambda>h. h \<noteq> 0) pre) post vars1 w1)"
proof (induction pre arbitrary: rf vars w)
  case Nil
  show ?case by simp
next
  case (Cons ref rest)
  show ?case
  proof (cases "ref = 0")
    case True
    then show ?thesis by (simp add: Cons.IH split: prod.splits sum.splits)
  next
    case nz: False
    show ?thesis
    proof (cases "debugRequestAsync api (effects w) (sessionId ctx) ref")
      case (Inl err)
      show ?thesis
        by (simp add: forEachRef_failed[OF nz Inl])
    next
      case (Inr body)
      show ?thesis
      proof (cases "md \<le> cd")
        case True
        show ?thesis
          using nz by (simp add: forEachRef_cut[OF nz Inr True] Cons.IH split: prod.splits sum.splits)
      next
        case False
        then have lt: "cd < md" by simp
        show ?thesis
          using nz by (simp add: forEachRef_recurse[OF nz Inr lt] Cons.IH split: prod.splits sum.splits)
      qed
    qed
  qed
qed

text \<open>The whole call, split at a handle of the list.\<close>

lemma strategy_split:
  assumes "refsToFetch ctx = pre @ post"
  shows "defaultFetchVariablesStrategy api ctx md cd w =
     (case forEachRef api ctx md cd (selectSessionState api (app w) (sessionId ctx))
             (selectReferences api (selectSessionState api (app w) (sessionId ctx))) pre [] w of
        (w1, Inl err) \<Rightarrow> (w1, Inl err)
      | (w1, Inr vars1) \<Rightarrow>
          forEachRef api ctx md cd (selectSessionState api (app w) (sessionId ctx))
            (selectReferences api (selectSessionState api (app w) (sessionId ctx))
               @ filter (\<lambda>h. h \<noteq> 0) pre)
            post vars1 w1)"
  by (simp add: strategy_unfold assms forEachRef_append)

section \<open>The shape of a run\<close>

lemma sessionId_childContextArgs [simp]:
  "sessionId (childContextArgs ctx refs e) = sessionId ctx"
  by (simp add: childContextArgs_def)

lemma refsToFetch_childContextArgs [simp]:
  "refsToFetch (childContextArgs ctx refs e) = refs"
  by (simp add: childContextArgs_def)

lemma effects_resolve [simp]:
  "effects (resolve api sid ref body w) =
     effects w @ [Request sid ref, Dispatch sid [toVariablesEntity ref body]]"
  by (simp add: resolve_def dispatch_addVariables_def request_def)

lemma app_resolve [simp]:
  "app (resolve api sid ref body w) = addVariables api sid [toVariablesEntity ref body] (app w)"
  by (simp add: resolve_def dispatch_addVariables_def request_def)

lemma effects_request [simp]: "effects (request sid ref w) = effects w @ [Request sid ref]"
  by (simp add: request_def)

lemma app_request [simp]: "app (request sid ref w) = app w"
  by (simp add: request_def)

lemma toVariablesEntity_sel [simp]:
  "reference (toVariablesEntity ref body) = ref"
  "variables (toVariablesEntity ref body) = body"
  by (simp_all add: toVariablesEntity_def)

lemma events_of_simps [simp]:
  "events_of sid [] = []"
  "events_of sid (e # es) = Request sid (reference e) # Dispatch sid [e] # events_of sid es"
  "events_of sid (es @ es') = events_of sid es @ events_of sid es'"
  by (simp_all add: events_of_def)

lemma requested_append [simp]: "requested (a @ b) = requested a @ requested b"
  by (induction a rule: requested.induct) simp_all

lemma published_append [simp]: "published (a @ b) = published a @ published b"
  by (induction a rule: published.induct) simp_all

lemma requested_events_of [simp]: "requested (events_of sid es) = map reference es"
  by (induction es) simp_all

lemma published_events_of [simp]: "published (events_of sid es) = es"
  by (induction es) simp_all

lemma answered_append:
  "answered api sid hist (es @ es') =
     (answered api sid hist es \<and> answered api sid (hist @ events_of sid es) es')"
  by (induction es arbitrary: hist) simp_all

lemma publish_all_simps [simp]:
  "publish_all api sid [] a = a"
  "publish_all api sid (e # es) a = publish_all api sid es (addVariables api sid [e] a)"
  "publish_all api sid (es @ es') a = publish_all api sid es' (publish_all api sid es a)"
  by (simp_all add: publish_all_def)

lemma events_of_member:
  "e \<in> set es \<Longrightarrow>
     Request sid (reference e) \<in> set (events_of sid es) \<and> Dispatch sid [e] \<in> set (events_of sid es)"
  by (induction es) auto

lemma shape_nil: "shape api sid w vars [] (w, Inr vars)"
  by (simp add: shape_def)

lemma shape_failed:
  "ref \<noteq> 0 \<Longrightarrow> debugRequestAsync api (effects w) sid ref = Inl err \<Longrightarrow>
   shape api sid w vars [] (request sid ref w, Inl err)"
  by (auto simp: shape_def)

lemma shape_resolve:
  assumes "ref \<noteq> 0" and "debugRequestAsync api (effects w) sid ref = Inr body"
    and "shape api sid (resolve api sid ref body w) (vars @ [toVariablesEntity ref body]) es out"
  shows "shape api sid w vars (toVariablesEntity ref body # es) out"
  using assms by (auto simp: shape_def split: sum.splits)

lemma shape_Inl_vars:
  "shape api sid w vars es (w', Inl err) \<Longrightarrow> shape api sid w vars' es (w', Inl err)"
  by (simp add: shape_def)

lemma shape_then:
  assumes "shape api sid w [] es (w1, Inr cv)"
    and "shape api sid w1 (vars @ cv) es' out"
  shows "shape api sid w vars (es @ es') out"
  using assms by (auto simp: shape_def answered_append split: sum.splits)

lemma run_shape:
  shows "\<exists>es. shape api (sessionId ctx) w [] es (defaultFetchVariablesStrategy api ctx md cd w)"
    and "\<exists>es. shape api (sessionId ctx) w vars es (forEachRef api ctx md cd s rf refs vars w)"
proof (induction api ctx md cd w and api ctx md cd s rf refs vars w rule: strategy_induct)
  case (run api ctx md cd w)
  then show ?case by (simp add: strategy_unfold)
next
  case (nil api ctx md cd s rf vars w)
  have "shape api (sessionId ctx) w vars [] (w, Inr vars)" by (rule shape_nil)
  then show ?case by (simp only: forEachRef.simps(1)) (rule exI)
next
  case (zero api ctx md cd s rf rest vars w)
  then show ?case by simp
next
  case (failed api ctx md cd s rf ref rest vars w e)
  have "shape api (sessionId ctx) w vars [] (request (sessionId ctx) ref w, Inl e)"
    using failed by (rule shape_failed)
  then show ?case unfolding forEachRef_failed[OF failed] by (rule exI)
next
  case (cut api ctx md cd s rf ref rest vars w body)
  from cut(4) obtain es where
    "shape api (sessionId ctx) (resolve api (sessionId ctx) ref body w)
       (vars @ [toVariablesEntity ref body]) es
       (forEachRef api ctx md cd s (rf @ [ref]) rest (vars @ [toVariablesEntity ref body])
          (resolve api (sessionId ctx) ref body w))" ..
  from shape_resolve[OF cut(1,2) this]
  show ?case unfolding forEachRef_cut[OF cut(1,2,3)] by (rule exI)
next
  case (recurse api ctx md cd s rf ref rest vars w body)
  let ?n = "toVariablesEntity ref body"
  let ?w1 = "resolve api (sessionId ctx) ref body w"
  let ?cctx = "childContextArgs ctx (childRefsToFetch ctx (rf @ [ref]) (variables_ids api s) ?n) ?n"
  let ?child = "defaultFetchVariablesStrategy api ?cctx md (cd + 1) ?w1"
  from recurse(4) obtain es where "shape api (sessionId ?cctx) ?w1 [] es ?child" ..
  then have es: "shape api (sessionId ctx) ?w1 [] es ?child" by simp
  obtain w2 r where child: "?child = (w2, r)" by (cases ?child)
  show ?case
  proof (cases r)
    case (Inl err)
    from es have "shape api (sessionId ctx) ?w1 (vars @ [?n]) es (w2, Inl err)"
      unfolding child Inl by (rule shape_Inl_vars)
    from shape_resolve[OF recurse(1,2) this]
    have "shape api (sessionId ctx) w vars (?n # es) (w2, Inl err)" .
    moreover have "forEachRef api ctx md cd s rf (ref # rest) vars w = (w2, Inl err)"
      unfolding forEachRef_recurse[OF recurse(1,2,3)] child Inl by simp
    ultimately show ?thesis by (simp only:) (rule exI)
  next
    case (Inr cv)
    let ?rest = "forEachRef api ctx md cd s (rf @ [ref]) rest (vars @ ?n # cv) w2"
    from recurse(5)[OF child[unfolded Inr]]
    obtain es' where es': "shape api (sessionId ctx) w2 (vars @ ?n # cv) es' ?rest" ..
    from es have "shape api (sessionId ctx) ?w1 [] es (w2, Inr cv)"
      unfolding child Inr .
    from shape_then[OF this, of "vars @ [?n]" es' ?rest] es'
    have "shape api (sessionId ctx) ?w1 (vars @ [?n]) (es @ es') ?rest" by simp
    from shape_resolve[OF recurse(1,2) this]
    have "shape api (sessionId ctx) w vars (?n # es @ es') ?rest" .
    moreover have "forEachRef api ctx md cd s rf (ref # rest) vars w = ?rest"
      unfolding forEachRef_recurse[OF recurse(1,2,3)] child Inr by simp
    ultimately show ?thesis by (simp only:) (rule exI)
  qed
qed

lemma new_effects_append:
  "effects w' = effects w @ evs \<Longrightarrow> new_effects w w' = evs"
  by (simp add: new_effects_def)

text \<open>The facts of a run, with the nodes it resolved named.\<close>

lemma strategy_run:
  assumes "defaultFetchVariablesStrategy api ctx md cd w = (w', r)"
  shows "\<exists>es. app w' = publish_all api (sessionId ctx) es (app w)
    \<and> answered api (sessionId ctx) (effects w) es
    \<and> (\<forall>e \<in> set es. reference e \<noteq> 0)
    \<and> (\<forall>vs. r = Inr vs \<longrightarrow> vs = es \<and> effects w' = effects w @ events_of (sessionId ctx) es)
    \<and> (\<forall>err. r = Inl err \<longrightarrow> (\<exists>h. h \<noteq> 0
        \<and> effects w' = effects w @ events_of (sessionId ctx) es @ [Request (sessionId ctx) h]
        \<and> debugRequestAsync api (effects w @ events_of (sessionId ctx) es) (sessionId ctx) h = Inl err))"
proof -
  from run_shape(1)[of api ctx w md cd] assms
  obtain es where "shape api (sessionId ctx) w [] es (w', r)" by auto
  then show ?thesis
    by (intro exI[of _ es]) (auto simp: shape_def split: sum.splits)
qed

lemma forEachRef_run:
  assumes "forEachRef api ctx md cd s rf refs vars w = (w', r)"
  shows "\<exists>es. app w' = publish_all api (sessionId ctx) es (app w)
    \<and> answered api (sessionId ctx) (effects w) es
    \<and> (\<forall>e \<in> set es. reference e \<noteq> 0)
    \<and> (\<forall>vs. r = Inr vs \<longrightarrow> vs = vars @ es \<and> effects w' = effects w @ events_of (sessionId ctx) es)
    \<and> (\<forall>err. r = Inl err \<longrightarrow> (\<exists>h. h \<noteq> 0
        \<and> effects w' = effects w @ events_of (sessionId ctx) es @ [Request (sessionId ctx) h]
        \<and> debugRequestAsync api (effects w @ events_of (sessionId ctx) es) (sessionId ctx) h = Inl err))"
proof -
  from run_shape(2)[of api ctx w vars md cd s rf refs] assms
  obtain es where "shape api (sessionId ctx) w vars es (w', r)" by auto
  then show ?thesis
    by (intro exI[of _ es]) (auto simp: shape_def split: sum.splits)
qed

lemma shape_extends:
  assumes "shape api sid w vars es (w', r)"
  shows "effects w' = effects w @ new_effects w w'"
proof (cases r)
  case (Inl err)
  with assms obtain h where "effects w' = effects w @ events_of sid es @ [Request sid h]"
    unfolding shape_def by auto
  then show ?thesis by (simp add: new_effects_def)
next
  case (Inr vs)
  with assms have "effects w' = effects w @ events_of sid es"
    unfolding shape_def by simp
  then show ?thesis by (simp add: new_effects_def)
qed

lemma strategy_extends:
  assumes "defaultFetchVariablesStrategy api ctx md cd w = (w', r)"
  shows "effects w' = effects w @ new_effects w w'"
proof -
  from run_shape(1)[of api ctx w md cd]
  obtain es where "shape api (sessionId ctx) w [] es (w', r)" unfolding assms ..
  then show ?thesis by (rule shape_extends)
qed

lemma forEachRef_extends:
  assumes "forEachRef api ctx md cd s rf refs vars w = (w', r)"
  shows "effects w' = effects w @ new_effects w w'"
proof -
  from run_shape(2)[of api ctx w vars md cd s rf refs]
  obtain es where "shape api (sessionId ctx) w vars es (w', r)" unfolding assms ..
  then show ?thesis by (rule shape_extends)
qed

lemma forEachRef_returns_vars:
  assumes "forEachRef api ctx md cd s rf refs vars w = (w', Inr vs)"
  shows "set vars \<subseteq> set vs"
proof -
  from run_shape(2)[of api ctx w vars md cd s rf refs]
  obtain es where "shape api (sessionId ctx) w vars es (w', Inr vs)" unfolding assms ..
  then have "vs = vars @ es" unfolding shape_def by simp
  then show ?thesis by simp
qed

text \<open>In the effects of answered nodes, every request was answered.\<close>

lemma answered_request:
  assumes "answered api sid hist es"
    and "events_of sid es = pre @ Request s h # post"
  shows "\<exists>body. debugRequestAsync api (hist @ pre) s h = Inr body"
  using assms
proof (induction es arbitrary: hist pre)
  case Nil
  then show ?case by simp
next
  case (Cons e es)
  show ?case
  proof (cases pre)
    case Nil
    with Cons.prems show ?thesis by simp
  next
    case (Cons a pre1)
    note p1 = this
    show ?thesis
    proof (cases pre1)
      case Nil
      with p1 Cons.prems show ?thesis by simp
    next
      case (Cons b pre2)
      with p1 Cons.prems have
        "events_of sid es = pre2 @ Request s h # post"
        "pre = [Request sid (reference e), Dispatch sid [e]] @ pre2"
        "answered api sid (hist @ [Request sid (reference e), Dispatch sid [e]]) es"
        by simp_all
      with Cons.IH[of "hist @ [Request sid (reference e), Dispatch sid [e]]" pre2]
      show ?thesis by simp
    qed
  qed
qed

lemma published_at_once_events_of:
  assumes "answered api sid hist es"
    and "published_at_once api (hist @ events_of sid es) rest"
  shows "published_at_once api hist (events_of sid es @ rest)"
  using assms
proof (induction es arbitrary: hist)
  case Nil
  then show ?case by simp
next
  case (Cons e es)
  from Cons.prems have a: "debugRequestAsync api hist sid (reference e) = Inr (variables e)"
    and b: "answered api sid (hist @ [Request sid (reference e), Dispatch sid [e]]) es"
    by simp_all
  from Cons.IH[OF b] Cons.prems(2)
  have "published_at_once api (hist @ [Request sid (reference e), Dispatch sid [e]])
          (events_of sid es @ rest)" by simp
  with a show ?case by (simp add: toVariablesEntity_def)
qed

lemma snoc_eq_split:
  "xs @ [x] = pre @ y # post \<Longrightarrow>
     (post = [] \<and> pre = xs \<and> x = y) \<or> (\<exists>post'. post = post' @ [x] \<and> xs = pre @ y # post')"
  by (cases post rule: rev_cases) auto

lemma array_includes_set [simp]: "array_includes xs y \<longleftrightarrow> y \<in> set xs"
  by (induction xs) auto

lemma truthy_Some_True: "truthy b \<longleftrightarrow> b = Some True"
  by (cases b) (auto simp: truthy_def)

section \<open>Evaluating the examples\<close>

lemmas example_defs =
  exampleApi_def exampleCtx_def emptyWorld_def var_def lazy_var_def scenarioAnswers_def
  chainAnswers_def backRefAnswers_def fetchedWorld_def scopedCtx_def knownWorld_def filterAnswers_def

lemmas run_defs =
  defaultFetchVariablesStrategy.simps forEachRef.simps(2) spec_fetch.simps spec_handles.simps(2)
  Let_def request_def dispatch_addVariables_def resolve_def
  toVariablesEntity_def childRefsToFetch_def childFilter_def childContextArgs_def truthy_def
  presentationHint_lazy_def new_effects_def flattened_def

section \<open>References that were already fetched\<close>

text \<open>
  Claim C1, as amended. Within one invocation, when the loop has gone through the handles
  \<open>pre\<close> of \<open>refsToFetch\<close> and resolves the handle \<open>ref\<close> that is not zero, it
  recurses on the children that pass the filter against its own array \<open>refsFetched\<close>,
  which then holds the references that \<open>selectReferences\<close> returned when the invocation
  started, the handles of \<open>pre\<close> that are not zero, and \<open>ref\<close>. So no selected child
  is a reference of the session at the start of the invocation, an earlier handle of the
  list, or the handle just resolved.
\<close>

theorem children_skip_refsFetched:
  assumes "refsToFetch ctx = pre @ ref # post"
    and "forEachRef api ctx md cd (selectSessionState api (app w) (sessionId ctx))
           (selectReferences api (selectSessionState api (app w) (sessionId ctx)))
           pre [] w = (w1, Inr vars1)"
    and "ref \<noteq> 0"
    and "debugRequestAsync api (effects w1) (sessionId ctx) ref = Inr body"
    and "cd < md"
  shows "defaultFetchVariablesStrategy api ctx md cd w =
      (case defaultFetchVariablesStrategy api
              (childContextArgs ctx
                 (childRefsToFetch ctx
                    (selectReferences api (selectSessionState api (app w) (sessionId ctx))
                       @ filter (\<lambda>h. h \<noteq> 0) pre @ [ref])
                    (variables_ids api (selectSessionState api (app w) (sessionId ctx)))
                    (toVariablesEntity ref body))
                 (toVariablesEntity ref body))
              md (cd + 1) (resolve api (sessionId ctx) ref body w1) of
         (w2, Inl err) \<Rightarrow> (w2, Inl err)
       | (w2, Inr childVars) \<Rightarrow>
           forEachRef api ctx md cd (selectSessionState api (app w) (sessionId ctx))
             (selectReferences api (selectSessionState api (app w) (sessionId ctx))
                @ filter (\<lambda>h. h \<noteq> 0) pre @ [ref])
             post (vars1 @ toVariablesEntity ref body # childVars) w2)
    \<and> (\<forall>c \<in> set (childRefsToFetch ctx
                    (selectReferences api (selectSessionState api (app w) (sessionId ctx))
                       @ filter (\<lambda>h. h \<noteq> 0) pre @ [ref])
                    (variables_ids api (selectSessionState api (app w) (sessionId ctx)))
                    (toVariablesEntity ref body)).
          c \<notin> set (selectReferences api (selectSessionState api (app w) (sessionId ctx)))
          \<and> c \<notin> set pre \<and> c \<noteq> ref)"
proof -
  let ?s = "selectSessionState api (app w) (sessionId ctx)"
  let ?rf = "selectReferences api ?s"
  have "defaultFetchVariablesStrategy api ctx md cd w =
      forEachRef api ctx md cd ?s (?rf @ filter (\<lambda>h. h \<noteq> 0) pre) (ref # post) vars1 w1"
    by (simp add: strategy_unfold assms(1) forEachRef_append[of _ _ _ _ _ _ pre] assms(2))
  also have "\<dots> =
      (case defaultFetchVariablesStrategy api
              (childContextArgs ctx
                 (childRefsToFetch ctx (?rf @ filter (\<lambda>h. h \<noteq> 0) pre @ [ref])
                    (variables_ids api ?s) (toVariablesEntity ref body))
                 (toVariablesEntity ref body))
              md (cd + 1) (resolve api (sessionId ctx) ref body w1) of
         (w2, Inl err) \<Rightarrow> (w2, Inl err)
       | (w2, Inr childVars) \<Rightarrow>
           forEachRef api ctx md cd ?s (?rf @ filter (\<lambda>h. h \<noteq> 0) pre @ [ref])
             post (vars1 @ toVariablesEntity ref body # childVars) w2)"
    by (simp add: forEachRef_recurse[OF assms(3,4,5)] split: prod.splits sum.splits)
  finally have run: "defaultFetchVariablesStrategy api ctx md cd w =
      (case defaultFetchVariablesStrategy api
              (childContextArgs ctx
                 (childRefsToFetch ctx (?rf @ filter (\<lambda>h. h \<noteq> 0) pre @ [ref])
                    (variables_ids api ?s) (toVariablesEntity ref body))
                 (toVariablesEntity ref body))
              md (cd + 1) (resolve api (sessionId ctx) ref body w1) of
         (w2, Inl err) \<Rightarrow> (w2, Inl err)
       | (w2, Inr childVars) \<Rightarrow>
           forEachRef api ctx md cd ?s (?rf @ filter (\<lambda>h. h \<noteq> 0) pre @ [ref])
             post (vars1 @ toVariablesEntity ref body # childVars) w2)" .
  have kids: "\<forall>c \<in> set (childRefsToFetch ctx (?rf @ filter (\<lambda>h. h \<noteq> 0) pre @ [ref])
                    (variables_ids api ?s) (toVariablesEntity ref body)).
          c \<notin> set ?rf \<and> c \<notin> set pre \<and> c \<noteq> ref"
    by (auto simp: childRefsToFetch_def childFilter_def)
  from run kids show ?thesis by (rule conjI)
qed

theorem children_skip_refsFetched_witness:
  "refsToFetch (exampleCtx [1, 2]) = [1] @ 2 # []
   \<and> (2::int) \<noteq> 0
   \<and> (0::int) < 10
   \<and> forEachRef (exampleApi backRefAnswers) (exampleCtx [1, 2]) 10 0 (app emptyWorld) [] [1] []
        emptyWorld
       = (resolve (exampleApi backRefAnswers) ''s1'' 1 [] emptyWorld, Inr [toVariablesEntity 1 []])
   \<and> debugRequestAsync (exampleApi backRefAnswers)
        (effects (resolve (exampleApi backRefAnswers) ''s1'' 1 [] emptyWorld)) ''s1'' 2
       = Inr [var ''back'' ''o'' 1, var ''self'' ''o'' 2, var ''fresh'' ''o'' 3]
   \<and> childRefsToFetch (exampleCtx [1, 2]) [1, 2] []
        (toVariablesEntity 2 [var ''back'' ''o'' 1, var ''self'' ''o'' 2, var ''fresh'' ''o'' 3])
       = [3]
   \<and> requested (new_effects emptyWorld
        (fst (defaultFetchVariablesStrategy (exampleApi backRefAnswers) (exampleCtx [1, 2]) 10 0
           emptyWorld)))
       = [1, 2, 3]"
  using children_skip_refsFetched[where ctx = "exampleCtx [1, 2]" and pre = "[1]" and ref = 2
      and post = "[]" and api = "exampleApi backRefAnswers" and w = emptyWorld and md = 10 and cd = 0
      and ?w1.0 = "resolve (exampleApi backRefAnswers) ''s1'' 1 [] emptyWorld"
      and ?vars1.0 = "[toVariablesEntity 1 []]"
      and body = "[var ''back'' ''o'' 1, var ''self'' ''o'' 2, var ''fresh'' ''o'' 3]"]
  by (simp add: example_defs run_defs)

text \<open>
  Claim C1 as stated does not hold: the handles of \<open>refsToFetch\<close> are requested with
  no look at \<open>refsFetched\<close>. A handle listed twice is requested twice, and a handle
  that the session store already holds is requested again.
\<close>

theorem listed_handle_requested_again:
  "requested (new_effects emptyWorld
      (fst (defaultFetchVariablesStrategy (exampleApi [(5, [])]) (exampleCtx [5, 5]) 10 0 emptyWorld)))
     = [5, 5]
   \<and> selectReferences (exampleApi [(7, [])])
        (selectSessionState (exampleApi [(7, [])]) (app fetchedWorld) ''s1'') = [7]
   \<and> requested (new_effects fetchedWorld
      (fst (defaultFetchVariablesStrategy (exampleApi [(7, [])]) (exampleCtx [7]) 10 0 fetchedWorld)))
     = [7]"
  by (simp add: example_defs run_defs)

section \<open>The order of the returned nodes\<close>

lemma spec_fetch_unfold:
  "spec_fetch api ctx md cd w =
     spec_handles api ctx md cd (selectSessionState api (app w) (sessionId ctx))
       (selectReferences api (selectSessionState api (app w) (sessionId ctx)))
       (refsToFetch ctx) w"
  by simp

lemma spec_handles_zero [simp]:
  "spec_handles api ctx md cd s rf (0 # hs) w = spec_handles api ctx md cd s rf hs w"
  by simp

lemma spec_handles_failed:
  "h \<noteq> 0 \<Longrightarrow> debugRequestAsync api (effects w) (sessionId ctx) h = Inl err \<Longrightarrow>
   spec_handles api ctx md cd s rf (h # hs) w = (request (sessionId ctx) h w, Inl err)"
  by simp

lemma spec_handles_leaf:
  assumes "h \<noteq> 0" and "debugRequestAsync api (effects w) (sessionId ctx) h = Inr body"
    and "md \<le> cd \<or> childRefsToFetch ctx (rf @ [h]) (variables_ids api s) (toVariablesEntity h body) = []"
  shows "spec_handles api ctx md cd s rf (h # hs) w =
     (case spec_handles api ctx md cd s (rf @ [h]) hs (resolve api (sessionId ctx) h body w) of
        (w3, Inl err) \<Rightarrow> (w3, Inl err)
      | (w3, Inr ts) \<Rightarrow> (w3, Inr (Fetched (toVariablesEntity h body) [] # ts)))"
  using assms by (auto simp: Let_def simp del: spec_fetch.simps)

lemma spec_handles_recurse:
  assumes "h \<noteq> 0" and "debugRequestAsync api (effects w) (sessionId ctx) h = Inr body"
    and "cd < md"
    and "childRefsToFetch ctx (rf @ [h]) (variables_ids api s) (toVariablesEntity h body) \<noteq> []"
  shows "spec_handles api ctx md cd s rf (h # hs) w =
     (case spec_fetch api
             (childContextArgs ctx
                (childRefsToFetch ctx (rf @ [h]) (variables_ids api s) (toVariablesEntity h body))
                (toVariablesEntity h body))
             md (cd + 1) (resolve api (sessionId ctx) h body w) of
        (w2, Inl err) \<Rightarrow> (w2, Inl err)
      | (w2, Inr kids) \<Rightarrow>
          (case spec_handles api ctx md cd s (rf @ [h]) hs w2 of
             (w3, Inl err) \<Rightarrow> (w3, Inl err)
           | (w3, Inr ts) \<Rightarrow> (w3, Inr (Fetched (toVariablesEntity h body) kids # ts))))"
  using assms by (simp add: Let_def del: spec_fetch.simps)

declare spec_fetch.simps [simp del] spec_handles.simps(2) [simp del]

lemma flattened_simps [simp]:
  "flattened vars (w', Inl err) = (w', Inl err)"
  "flattened vars (w', Inr forest) = (w', Inr (vars @ concat (map preorder forest)))"
  by (simp_all add: flattened_def)

lemma strategy_refines_spec:
  shows "defaultFetchVariablesStrategy api ctx md cd w = flattened [] (spec_fetch api ctx md cd w)"
    and "forEachRef api ctx md cd s rf refs vars w =
           flattened vars (spec_handles api ctx md cd s rf refs w)"
proof (induction api ctx md cd w and api ctx md cd s rf refs vars w rule: strategy_induct)
  case (run api ctx md cd w)
  then show ?case by (simp add: strategy_unfold spec_fetch_unfold)
next
  case (nil api ctx md cd s rf vars w)
  show ?case by simp
next
  case (zero api ctx md cd s rf rest vars w)
  then show ?case by simp
next
  case (failed api ctx md cd s rf ref rest vars w e)
  then show ?case by (simp add: forEachRef_failed spec_handles_failed)
next
  case (cut api ctx md cd s rf ref rest vars w body)
  let ?w1 = "resolve api (sessionId ctx) ref body w"
  obtain w3 r3 where rest: "spec_handles api ctx md cd s (rf @ [ref]) rest ?w1 = (w3, r3)"
    by (cases "spec_handles api ctx md cd s (rf @ [ref]) rest ?w1")
  from cut(3) have leaf: "md \<le> cd \<or> childRefsToFetch ctx (rf @ [ref]) (variables_ids api s)
      (toVariablesEntity ref body) = []" by simp
  show ?case
    by (cases r3)
      (simp_all add: forEachRef_cut[OF cut(1,2,3)] spec_handles_leaf[OF cut(1,2) leaf] cut(4) rest)
next
  case (recurse api ctx md cd s rf ref rest vars w body)
  let ?n = "toVariablesEntity ref body"
  let ?w1 = "resolve api (sessionId ctx) ref body w"
  let ?kids = "childRefsToFetch ctx (rf @ [ref]) (variables_ids api s) ?n"
  let ?cctx = "childContextArgs ctx ?kids ?n"
  show ?case
  proof (cases "?kids = []")
    case True
    then have child: "defaultFetchVariablesStrategy api ?cctx md (cd + 1) ?w1 = (?w1, Inr [])"
      by (simp add: strategy_nil)
    obtain w3 r3 where rest: "spec_handles api ctx md cd s (rf @ [ref]) rest ?w1 = (w3, r3)"
      by (cases "spec_handles api ctx md cd s (rf @ [ref]) rest ?w1")
    from True have leaf: "md \<le> cd \<or> ?kids = []" by simp
    from recurse(5)[OF child]
    have "forEachRef api ctx md cd s (rf @ [ref]) rest (vars @ [?n]) ?w1 = flattened (vars @ [?n]) (w3, r3)"
      unfolding rest by simp
    then show ?thesis
      by (cases r3)
        (simp_all add: forEachRef_recurse[OF recurse(1,2,3)] spec_handles_leaf[OF recurse(1,2) leaf]
           child rest)
  next
    case False
    obtain w2 r2 where kids: "spec_fetch api ?cctx md (cd + 1) ?w1 = (w2, r2)"
      by (cases "spec_fetch api ?cctx md (cd + 1) ?w1")
    show ?thesis
    proof (cases r2)
      case (Inl err)
      with recurse(4) kids
      have "defaultFetchVariablesStrategy api ?cctx md (cd + 1) ?w1 = (w2, Inl err)" by simp
      then show ?thesis
        by (simp add: forEachRef_recurse[OF recurse(1,2,3)]
              spec_handles_recurse[OF recurse(1,2,3) False] kids Inl)
    next
      case (Inr kf)
      with recurse(4) kids
      have child: "defaultFetchVariablesStrategy api ?cctx md (cd + 1) ?w1 =
          (w2, Inr (concat (map preorder kf)))" by simp
      obtain w3 r3 where rest: "spec_handles api ctx md cd s (rf @ [ref]) rest w2 = (w3, r3)"
        by (cases "spec_handles api ctx md cd s (rf @ [ref]) rest w2")
      from recurse(5)[OF child]
      have "forEachRef api ctx md cd s (rf @ [ref]) rest (vars @ ?n # concat (map preorder kf)) w2
          = flattened (vars @ ?n # concat (map preorder kf)) (w3, r3)"
        unfolding rest .
      then show ?thesis
        by (cases r3)
          (simp_all add: forEachRef_recurse[OF recurse(1,2,3)]
             spec_handles_recurse[OF recurse(1,2,3) False] kids Inr child rest)
    qed
  qed
qed

text \<open>The roots of the forest are the handles asked for that are not zero, in order.\<close>

lemma spec_handles_roots:
  assumes "spec_handles api ctx md cd s rf hs w = (w', Inr forest)"
  shows "map (\<lambda>t. reference (node t)) forest = filter (\<lambda>h. h \<noteq> 0) hs"
  using assms
proof (induction hs arbitrary: rf w forest)
  case Nil
  then show ?case by (simp add: spec_handles.simps)
next
  case (Cons h hs)
  show ?case
  proof (cases "h = 0")
    case True
    with Cons.prems have "spec_handles api ctx md cd s rf hs w = (w', Inr forest)" by simp
    from Cons.IH[OF this] True show ?thesis by simp
  next
    case nz: False
    show ?thesis
    proof (cases "debugRequestAsync api (effects w) (sessionId ctx) h")
      case (Inl err)
      with Cons.prems nz show ?thesis by (simp add: spec_handles_failed)
    next
      case (Inr body)
      let ?n = "toVariablesEntity h body"
      have "\<exists>w2 kids ts. spec_handles api ctx md cd s (rf @ [h]) hs w2 = (w', Inr ts)
              \<and> forest = Fetched ?n kids # ts"
      proof (cases "md \<le> cd \<or> childRefsToFetch ctx (rf @ [h]) (variables_ids api s) ?n = []")
        case True
        from Cons.prems show ?thesis
          unfolding spec_handles_leaf[OF nz Inr True]
          by (auto split: prod.splits sum.splits)
      next
        case False
        then have lt: "cd < md"
          and ne: "childRefsToFetch ctx (rf @ [h]) (variables_ids api s) ?n \<noteq> []" by simp_all
        from Cons.prems show ?thesis
          unfolding spec_handles_recurse[OF nz Inr lt ne]
          by (auto split: prod.splits sum.splits)
      qed
      then obtain w2 kids ts where
        rest: "spec_handles api ctx md cd s (rf @ [h]) hs w2 = (w', Inr ts)"
        and forest: "forest = Fetched ?n kids # ts" by blast
      from Cons.IH[OF rest] forest nz show ?thesis by simp
    qed
  qed
qed

text \<open>
  Claim C2. The function returns what the specified algorithm returns, with the same
  effects: the forest of fetches flattened depth first and left to right, every node
  followed by the nodes fetched below it before the tree of the next handle starts. On
  success the forest has one tree for each handle of \<open>refsToFetch\<close> that is not zero, in
  the order of the list. In the example the first handle has no eligible child and the
  second has a chain of two descendants.
\<close>

theorem result_is_preorder_of_fetch_forest:
  "defaultFetchVariablesStrategy api ctx md cd w = flattened [] (spec_fetch api ctx md cd w)
   \<and> (\<forall>w' forest. spec_fetch api ctx md cd w = (w', Inr forest) \<longrightarrow>
         map (\<lambda>t. reference (node t)) forest = filter (\<lambda>h. h \<noteq> 0) (refsToFetch ctx))"
proof (intro conjI allI impI)
  show "defaultFetchVariablesStrategy api ctx md cd w = flattened [] (spec_fetch api ctx md cd w)"
    by (rule strategy_refines_spec(1))
next
  fix w' forest
  assume "spec_fetch api ctx md cd w = (w', Inr forest)"
  then show "map (\<lambda>t. reference (node t)) forest = filter (\<lambda>h. h \<noteq> 0) (refsToFetch ctx)"
    unfolding spec_fetch_unfold by (rule spec_handles_roots)
qed

theorem result_is_preorder_of_fetch_forest_witness:
  "spec_fetch (exampleApi chainAnswers) (exampleCtx [1, 2]) 10 0 emptyWorld =
     (fst (defaultFetchVariablesStrategy (exampleApi chainAnswers) (exampleCtx [1, 2]) 10 0 emptyWorld),
      Inr [Fetched (toVariablesEntity 1 [var ''n'' ''5'' 0]) [],
           Fetched (toVariablesEntity 2 [var ''o'' ''Obj@1'' 3])
             [Fetched (toVariablesEntity 3 [var ''p'' ''Obj@2'' 4])
                [Fetched (toVariablesEntity 4 []) []]]])
   \<and> snd (defaultFetchVariablesStrategy (exampleApi chainAnswers) (exampleCtx [1, 2]) 10 0 emptyWorld) =
       Inr [toVariablesEntity 1 [var ''n'' ''5'' 0],
            toVariablesEntity 2 [var ''o'' ''Obj@1'' 3],
            toVariablesEntity 3 [var ''p'' ''Obj@2'' 4],
            toVariablesEntity 4 []]"
  using result_is_preorder_of_fetch_forest[where api = "exampleApi chainAnswers"
      and ctx = "exampleCtx [1, 2]" and md = 10 and cd = 0 and w = emptyWorld]
  by (simp add: example_defs run_defs)

section \<open>The selection of children\<close>

lemma childFilter_conditions:
  "childFilter ctx refsFetched known =
     (\<lambda>v. 0 < variablesReference v
          \<and> variablesReference v \<notin> set refsFetched
          \<and> (force ctx = Some True \<or> presentationHint_lazy v \<noteq> Some True)
          \<and> valueString v \<notin> set known)"
  by (rule ext) (simp add: childFilter_def truthy_Some_True)

text \<open>
  Claim C3. When an invocation has gone through the handles \<open>pre\<close> of its list and
  resolves the handle \<open>ref\<close> below the depth bound, it recurses on the references of
  exactly those child descriptors of the response, in order, for which all four hold: the
  reference is greater than zero; the reference is not in the array \<open>refsFetched\<close> of the
  invocation (the references of the session at its start, the earlier handles that are
  not zero, and \<open>ref\<close>); the context is forced or the descriptor is not marked lazy; and
  the value string is not among the identifiers of the session read at the start of the
  invocation. The filter predicate of the source is these four conditions for any
  arrays. In the example the store holds reference 7 and the identity \<open>String@8\<close>; of
  the six children only reference 10 is fetched, and reference 8, which is lazy, is
  fetched too when the context is forced.
\<close>

theorem child_selected_iff:
  assumes "refsToFetch ctx = pre @ ref # post"
    and "forEachRef api ctx md cd (selectSessionState api (app w) (sessionId ctx))
           (selectReferences api (selectSessionState api (app w) (sessionId ctx)))
           pre [] w = (w1, Inr vars1)"
    and "ref \<noteq> 0"
    and "debugRequestAsync api (effects w1) (sessionId ctx) ref = Inr body"
    and "cd < md"
  shows "defaultFetchVariablesStrategy api ctx md cd w =
      (case defaultFetchVariablesStrategy api
              (ctx\<lparr>refsToFetch :=
                     map variablesReference
                       (filter
                          (\<lambda>v. 0 < variablesReference v
                             \<and> variablesReference v \<notin>
                                 set (selectReferences api
                                        (selectSessionState api (app w) (sessionId ctx))
                                      @ filter (\<lambda>h. h \<noteq> 0) pre @ [ref])
                             \<and> (force ctx = Some True \<or> presentationHint_lazy v \<noteq> Some True)
                             \<and> valueString v \<notin>
                                 set (variables_ids api
                                        (selectSessionState api (app w) (sessionId ctx))))
                          body),
                   variable := Some (toVariablesEntity ref body)\<rparr>)
              md (cd + 1) (resolve api (sessionId ctx) ref body w1) of
         (w2, Inl err) \<Rightarrow> (w2, Inl err)
       | (w2, Inr childVars) \<Rightarrow>
           forEachRef api ctx md cd (selectSessionState api (app w) (sessionId ctx))
             (selectReferences api (selectSessionState api (app w) (sessionId ctx))
                @ filter (\<lambda>h. h \<noteq> 0) pre @ [ref])
             post (vars1 @ toVariablesEntity ref body # childVars) w2)
    \<and> (childFilter ctx refsFetched known v \<longleftrightarrow>
          0 < variablesReference v
          \<and> variablesReference v \<notin> set refsFetched
          \<and> (force ctx = Some True \<or> presentationHint_lazy v \<noteq> Some True)
          \<and> valueString v \<notin> set known)
    \<and> childRefsToFetch ctx refsFetched known e =
          map variablesReference (filter (childFilter ctx refsFetched known) (variables e))"
proof -
  let ?s = "selectSessionState api (app w) (sessionId ctx)"
  let ?rf = "selectReferences api ?s @ filter (\<lambda>h. h \<noteq> 0) pre"
  let ?kids = "childRefsToFetch ctx (?rf @ [ref]) (variables_ids api ?s) (toVariablesEntity ref body)"
  have "defaultFetchVariablesStrategy api ctx md cd w =
      forEachRef api ctx md cd ?s ?rf (ref # post) vars1 w1"
    by (simp add: strategy_split[OF assms(1)] assms(2))
  also have "\<dots> =
      (case defaultFetchVariablesStrategy api
              (childContextArgs ctx ?kids (toVariablesEntity ref body))
              md (cd + 1) (resolve api (sessionId ctx) ref body w1) of
         (w2, Inl err) \<Rightarrow> (w2, Inl err)
       | (w2, Inr childVars) \<Rightarrow>
           forEachRef api ctx md cd ?s (?rf @ [ref])
             post (vars1 @ toVariablesEntity ref body # childVars) w2)"
    by (rule forEachRef_recurse[OF assms(3,4,5)])
  finally have run: "defaultFetchVariablesStrategy api ctx md cd w =
      (case defaultFetchVariablesStrategy api
              (childContextArgs ctx ?kids (toVariablesEntity ref body))
              md (cd + 1) (resolve api (sessionId ctx) ref body w1) of
         (w2, Inl err) \<Rightarrow> (w2, Inl err)
       | (w2, Inr childVars) \<Rightarrow>
           forEachRef api ctx md cd ?s (?rf @ [ref])
             post (vars1 @ toVariablesEntity ref body # childVars) w2)" .
  have kids: "childContextArgs ctx ?kids (toVariablesEntity ref body) =
      ctx\<lparr>refsToFetch :=
             map variablesReference
               (filter
                  (\<lambda>v. 0 < variablesReference v
                     \<and> variablesReference v \<notin> set (?rf @ [ref])
                     \<and> (force ctx = Some True \<or> presentationHint_lazy v \<noteq> Some True)
                     \<and> valueString v \<notin> set (variables_ids api ?s))
                  body),
           variable := Some (toVariablesEntity ref body)\<rparr>"
    by (simp add: childContextArgs_def childRefsToFetch_def childFilter_conditions)
  have iff: "childFilter ctx refsFetched known v \<longleftrightarrow>
          0 < variablesReference v
          \<and> variablesReference v \<notin> set refsFetched
          \<and> (force ctx = Some True \<or> presentationHint_lazy v \<noteq> Some True)
          \<and> valueString v \<notin> set known"
    by (simp add: childFilter_conditions)
  have sel: "childRefsToFetch ctx refsFetched known e =
          map variablesReference (filter (childFilter ctx refsFetched known) (variables e))"
    by (simp add: childRefsToFetch_def)
  from run[unfolded kids] iff sel show ?thesis by (simp only: append_assoc simp_thms)
qed

theorem child_selected_iff_witness:
  "refsToFetch (exampleCtx [1]) = [] @ 1 # []
   \<and> selectReferences (exampleApi filterAnswers)
        (selectSessionState (exampleApi filterAnswers) (app knownWorld) ''s1'') = [7]
   \<and> variables_ids (exampleApi filterAnswers)
        (selectSessionState (exampleApi filterAnswers) (app knownWorld) ''s1'') = [''String@8'']
   \<and> forEachRef (exampleApi filterAnswers) (exampleCtx [1]) 10 0 (app knownWorld) [7] [] []
        knownWorld = (knownWorld, Inr [])
   \<and> (1::int) \<noteq> 0
   \<and> debugRequestAsync (exampleApi filterAnswers) (effects knownWorld) ''s1'' 1
       = Inr [var ''a'' ''1'' 0, var ''b'' ''2'' 7, lazy_var ''c'' ''3'' 8,
              var ''d'' ''String@8'' 9, var ''e'' ''5'' 10, var ''self'' ''6'' 1]
   \<and> (0::int) < 10
   \<and> requested (new_effects knownWorld
        (fst (defaultFetchVariablesStrategy (exampleApi filterAnswers) (exampleCtx [1]) 10 0
           knownWorld))) = [1, 10]
   \<and> requested (new_effects knownWorld
        (fst (defaultFetchVariablesStrategy (exampleApi filterAnswers)
           ((exampleCtx [1])\<lparr>force := Some True\<rparr>) 10 0 knownWorld))) = [1, 8, 10]"
  using child_selected_iff[where ctx = "exampleCtx [1]" and pre = "[]" and ref = 1
      and post = "[]" and api = "exampleApi filterAnswers" and w = knownWorld and md = 10 and cd = 0
      and ?w1.0 = knownWorld and ?vars1.0 = "[]"
      and body = "[var ''a'' ''1'' 0, var ''b'' ''2'' 7, lazy_var ''c'' ''3'' 8,
              var ''d'' ''String@8'' 9, var ''e'' ''5'' 10, var ''self'' ''6'' 1]"]
    child_selected_iff[where ctx = "(exampleCtx [1])\<lparr>force := Some True\<rparr>" and pre = "[]" and ref = 1
      and post = "[]" and api = "exampleApi filterAnswers" and w = knownWorld and md = 10 and cd = 0
      and ?w1.0 = knownWorld and ?vars1.0 = "[]"
      and body = "[var ''a'' ''1'' 0, var ''b'' ''2'' 7, lazy_var ''c'' ''3'' 8,
              var ''d'' ''String@8'' 9, var ''e'' ''5'' 10, var ''self'' ''6'' 1]"]
  by (simp add: example_defs run_defs)

section \<open>The depth bound\<close>

text \<open>At the depth bound the loop requests the listed handles and nothing else.\<close>

lemma cut_loop:
  assumes "md \<le> cd" and "forEachRef api ctx md cd s rf refs vars w = (w', r)"
  shows "prefix (requested (new_effects w w')) (filter (\<lambda>h. h \<noteq> 0) refs)
     \<and> (\<forall>vs. r = Inr vs \<longrightarrow> requested (new_effects w w') = filter (\<lambda>h. h \<noteq> 0) refs)"
  using assms(2)
proof (induction refs arbitrary: rf vars w)
  case Nil
  then show ?case by (simp add: new_effects_def)
next
  case (Cons ref rest)
  show ?case
  proof (cases "ref = 0")
    case True
    with Cons.prems have "forEachRef api ctx md cd s rf rest vars w = (w', r)" by simp
    from Cons.IH[OF this] True show ?thesis by simp
  next
    case nz: False
    show ?thesis
    proof (cases "debugRequestAsync api (effects w) (sessionId ctx) ref")
      case (Inl err)
      from Cons.prems have "w' = request (sessionId ctx) ref w" "r = Inl err"
        unfolding forEachRef_failed[OF nz Inl] by simp_all
      then have "new_effects w w' = [Request (sessionId ctx) ref]" "r = Inl err"
        by (simp_all add: new_effects_def)
      with nz show ?thesis by simp
    next
      case (Inr body)
      let ?w1 = "resolve api (sessionId ctx) ref body w"
      from Cons.prems have rest: "forEachRef api ctx md cd s (rf @ [ref]) rest
          (vars @ [toVariablesEntity ref body]) ?w1 = (w', r)"
        unfolding forEachRef_cut[OF nz Inr assms(1)] .
      from forEachRef_extends[OF rest]
      have "effects w' = effects w @
          ([Request (sessionId ctx) ref, Dispatch (sessionId ctx) [toVariablesEntity ref body]]
            @ new_effects ?w1 w')"
        by simp
      then have "new_effects w w' =
          [Request (sessionId ctx) ref, Dispatch (sessionId ctx) [toVariablesEntity ref body]]
            @ new_effects ?w1 w'"
        by (rule new_effects_append)
      with Cons.IH[OF rest] nz show ?thesis by simp
    qed
  qed
qed

text \<open>At the depth bound the loop is the loop that fetches no children.\<close>

lemma forEachRef_at_bound:
  assumes "md \<le> cd"
  shows "forEachRef api ctx md cd s rf refs vars w =
     (case fetch_without_children api (sessionId ctx) refs w of
        (w', Inl err) \<Rightarrow> (w', Inl err)
      | (w', Inr vs) \<Rightarrow> (w', Inr (vars @ vs)))"
proof (induction refs arbitrary: rf vars w)
  case Nil
  show ?case by simp
next
  case (Cons ref rest)
  show ?case
  proof (cases "ref = 0")
    case True
    then show ?thesis by (simp add: Cons.IH)
  next
    case nz: False
    show ?thesis
    proof (cases "debugRequestAsync api (effects w) (sessionId ctx) ref")
      case (Inl err)
      with nz show ?thesis by (simp add: forEachRef_failed)
    next
      case (Inr body)
      obtain w' r where rest:
        "fetch_without_children api (sessionId ctx) rest (resolve api (sessionId ctx) ref body w) = (w', r)"
        by (cases "fetch_without_children api (sessionId ctx) rest (resolve api (sessionId ctx) ref body w)")
      show ?thesis
        using nz Inr rest
        by (cases r) (simp_all add: forEachRef_cut[OF nz Inr assms] Cons.IH)
    qed
  qed
qed

lemma fetch_without_children_answers:
  assumes "\<forall>hist. \<forall>h \<in> set refs. h \<noteq> 0 \<longrightarrow> (\<exists>body. debugRequestAsync api hist sid h = Inr body)"
  shows "\<exists>w' vs. fetch_without_children api sid refs w = (w', Inr vs)"
  using assms
proof (induction refs arbitrary: w)
  case Nil
  show ?case by simp
next
  case (Cons h hs)
  from Cons.prems have tl: "\<forall>hist. \<forall>h \<in> set hs. h \<noteq> 0 \<longrightarrow>
      (\<exists>body. debugRequestAsync api hist sid h = Inr body)" by simp
  show ?case
  proof (cases "h = 0")
    case True
    with Cons.IH[OF tl, of w] show ?thesis by simp
  next
    case False
    with Cons.prems obtain body where body: "debugRequestAsync api (effects w) sid h = Inr body"
      by auto
    from Cons.IH[OF tl, of "resolve api sid h body w"] obtain w' vs where
      "fetch_without_children api sid hs (resolve api sid h body w) = (w', Inr vs)" by blast
    with False body show ?thesis by simp
  qed
qed

text \<open>
  Claim C4. When \<open>currentDepth\<close> has reached \<open>maxDepth\<close>, the function is the loop
  that fetches no children: for each handle of \<open>refsToFetch\<close> that is not zero, in
  order, it sends the request, publishes the node and returns it, and it requests nothing
  else. If the adapter answers the listed handles, the call returns, with one node for
  each of them. With \<open>maxDepth = 0\<close> this is every call from the top. In the example
  the response has an eligible child, which is not fetched.
\<close>

theorem depth_bound_stops_recursion:
  assumes "md \<le> cd" and "defaultFetchVariablesStrategy api ctx md cd w = (w', r)"
  shows "defaultFetchVariablesStrategy api ctx md cd w =
       fetch_without_children api (sessionId ctx) (refsToFetch ctx) w
     \<and> ((\<forall>hist. \<forall>h \<in> set (refsToFetch ctx). h \<noteq> 0 \<longrightarrow>
            (\<exists>body. debugRequestAsync api hist (sessionId ctx) h = Inr body))
         \<longrightarrow> (\<exists>vs. r = Inr vs))
     \<and> prefix (requested (new_effects w w')) (filter (\<lambda>h. h \<noteq> 0) (refsToFetch ctx))
     \<and> (\<forall>vs. r = Inr vs \<longrightarrow>
           requested (new_effects w w') = filter (\<lambda>h. h \<noteq> 0) (refsToFetch ctx)
           \<and> map reference vs = filter (\<lambda>h. h \<noteq> 0) (refsToFetch ctx)
           \<and> published (new_effects w w') = vs)"
proof -
  have eq: "defaultFetchVariablesStrategy api ctx md cd w =
       fetch_without_children api (sessionId ctx) (refsToFetch ctx) w"
    by (simp add: strategy_unfold forEachRef_at_bound[OF assms(1)] split: prod.splits sum.splits)
  have ok: "\<exists>vs. r = Inr vs"
    if "\<forall>hist. \<forall>h \<in> set (refsToFetch ctx). h \<noteq> 0 \<longrightarrow>
            (\<exists>body. debugRequestAsync api hist (sessionId ctx) h = Inr body)"
  proof -
    from fetch_without_children_answers[OF that, of w] eq assms(2) show ?thesis by auto
  qed
  from assms(2) have loop: "forEachRef api ctx md cd (selectSessionState api (app w) (sessionId ctx))
       (selectReferences api (selectSessionState api (app w) (sessionId ctx)))
       (refsToFetch ctx) [] w = (w', r)"
    by (simp add: strategy_unfold)
  note cut = cut_loop[OF assms(1) loop]
  from strategy_run[OF assms(2)] obtain es where
    run: "\<forall>vs. r = Inr vs \<longrightarrow> vs = es \<and> effects w' = effects w @ events_of (sessionId ctx) es"
    by blast
  have "map reference vs = requested (new_effects w w') \<and> published (new_effects w w') = vs"
    if "r = Inr vs" for vs
  proof -
    from run that have "vs = es" "effects w' = effects w @ events_of (sessionId ctx) es" by blast+
    then show ?thesis by (simp add: new_effects_def)
  qed
  with cut have old: "prefix (requested (new_effects w w')) (filter (\<lambda>h. h \<noteq> 0) (refsToFetch ctx))
     \<and> (\<forall>vs. r = Inr vs \<longrightarrow>
           requested (new_effects w w') = filter (\<lambda>h. h \<noteq> 0) (refsToFetch ctx)
           \<and> map reference vs = filter (\<lambda>h. h \<noteq> 0) (refsToFetch ctx)
           \<and> published (new_effects w w') = vs)" by simp
  from eq ok old show ?thesis by blast
qed

theorem depth_bound_stops_recursion_witness:
  "(2::int) \<le> 3
   \<and> (\<forall>hist. debugRequestAsync (exampleApi scenarioAnswers) hist ''s1'' 100
         = Inr [var ''x'' ''5'' 0, var ''arr'' ''[1,2]'' 200])
   \<and> defaultFetchVariablesStrategy (exampleApi scenarioAnswers) (exampleCtx [100]) 2 3 emptyWorld
       = (resolve (exampleApi scenarioAnswers) ''s1'' 100
            [var ''x'' ''5'' 0, var ''arr'' ''[1,2]'' 200] emptyWorld,
          Inr [toVariablesEntity 100 [var ''x'' ''5'' 0, var ''arr'' ''[1,2]'' 200]])
   \<and> fetch_without_children (exampleApi scenarioAnswers) ''s1'' [100] emptyWorld
       = (resolve (exampleApi scenarioAnswers) ''s1'' 100
            [var ''x'' ''5'' 0, var ''arr'' ''[1,2]'' 200] emptyWorld,
          Inr [toVariablesEntity 100 [var ''x'' ''5'' 0, var ''arr'' ''[1,2]'' 200]])
   \<and> requested (new_effects emptyWorld
        (resolve (exampleApi scenarioAnswers) ''s1'' 100
            [var ''x'' ''5'' 0, var ''arr'' ''[1,2]'' 200] emptyWorld)) = [100]
   \<and> published (new_effects emptyWorld
        (resolve (exampleApi scenarioAnswers) ''s1'' 100
            [var ''x'' ''5'' 0, var ''arr'' ''[1,2]'' 200] emptyWorld))
       = [toVariablesEntity 100 [var ''x'' ''5'' 0, var ''arr'' ''[1,2]'' 200]]
   \<and> snd (defaultFetchVariablesStrategy (exampleApi scenarioAnswers) (exampleCtx [100]) 0 0 emptyWorld)
       = Inr [toVariablesEntity 100 [var ''x'' ''5'' 0, var ''arr'' ''[1,2]'' 200]]"
proof -
  let ?api = "exampleApi scenarioAnswers"
  let ?body = "[var ''x'' ''5'' 0, var ''arr'' ''[1,2]'' 200]"
  have le: "(2::int) \<le> 3" by simp
  have ans: "\<forall>hist. debugRequestAsync ?api hist ''s1'' 100 = Inr ?body"
    by (simp add: example_defs)
  have run: "defaultFetchVariablesStrategy ?api (exampleCtx [100]) 2 3 emptyWorld
       = (resolve ?api ''s1'' 100 ?body emptyWorld, Inr [toVariablesEntity 100 ?body])"
    by (simp add: example_defs run_defs)
  have top: "snd (defaultFetchVariablesStrategy ?api (exampleCtx [100]) 0 0 emptyWorld)
       = Inr [toVariablesEntity 100 ?body]"
    by (simp add: example_defs run_defs)
  note inst = depth_bound_stops_recursion[OF le run]
  from inst have eq: "defaultFetchVariablesStrategy ?api (exampleCtx [100]) 2 3 emptyWorld =
       fetch_without_children ?api (sessionId (exampleCtx [100])) (refsToFetch (exampleCtx [100]))
         emptyWorld" by (rule conjunct1)
  have sid: "sessionId (exampleCtx [100]) = ''s1''" "refsToFetch (exampleCtx [100]) = [100]"
    by (simp_all add: example_defs)
  from eq run have flat: "fetch_without_children ?api ''s1'' [100] emptyWorld
       = (resolve ?api ''s1'' 100 ?body emptyWorld, Inr [toVariablesEntity 100 ?body])"
    by (simp only: sid)
  from inst have "requested (new_effects emptyWorld (resolve ?api ''s1'' 100 ?body emptyWorld))
             = filter (\<lambda>h. h \<noteq> 0) (refsToFetch (exampleCtx [100]))"
    and pub: "published (new_effects emptyWorld (resolve ?api ''s1'' 100 ?body emptyWorld))
       = [toVariablesEntity 100 ?body]"
    by blast+
  then have req: "requested (new_effects emptyWorld (resolve ?api ''s1'' 100 ?body emptyWorld)) = [100]"
    by (simp add: sid)
  from le ans run flat req pub top show ?thesis by (simp only: simp_thms)
qed

section \<open>A request that fails\<close>

text \<open>
  Claim C5. A run only adds effects, and the store holds every node that was published.
  A call that fails stops at the rejected request: it is the last effect, no node is
  published for it, and the call returns the adapter's error and no list. Conversely, if
  any request of the call is rejected, the call fails with that error and nothing
  happens after the request. In the example the request for 1 is answered and the
  request for 2 is rejected.
\<close>

theorem failed_request_fails_call:
  assumes "defaultFetchVariablesStrategy api ctx md cd w = (w', r)"
  shows "effects w' = effects w @ new_effects w w'
     \<and> app w' = publish_all api (sessionId ctx) (published (new_effects w w')) (app w)
     \<and> (\<forall>err. r = Inl err \<longrightarrow>
          (\<exists>h. new_effects w w' =
                  events_of (sessionId ctx) (published (new_effects w w')) @ [Request (sessionId ctx) h]
              \<and> debugRequestAsync api
                   (effects w @ events_of (sessionId ctx) (published (new_effects w w')))
                   (sessionId ctx) h = Inl err))
     \<and> (\<forall>pre s h post err.
          new_effects w w' = pre @ Request s h # post
          \<and> debugRequestAsync api (effects w @ pre) s h = Inl err
          \<longrightarrow> r = Inl err \<and> post = [])"
proof -
  let ?sid = "sessionId ctx"
  from strategy_run[OF assms] obtain es where
    store: "app w' = publish_all api (sessionId ctx) es (app w)"
    and ans: "answered api (sessionId ctx) (effects w) es"
    and nz: "\<forall>e \<in> set es. reference e \<noteq> 0"
    and ok: "\<And>vs. r = Inr vs \<Longrightarrow> vs = es \<and> effects w' = effects w @ events_of (sessionId ctx) es"
    and bad: "\<And>err. r = Inl err \<Longrightarrow> \<exists>h. h \<noteq> 0
        \<and> effects w' = effects w @ events_of (sessionId ctx) es @ [Request (sessionId ctx) h]
        \<and> debugRequestAsync api (effects w @ events_of (sessionId ctx) es) (sessionId ctx) h = Inl err"
    by blast
  show ?thesis
  proof (cases r)
    case (Inr vs)
    from ok[OF Inr] have eff: "effects w' = effects w @ events_of ?sid es" by simp
    then have new: "new_effects w w' = events_of ?sid es" by (simp add: new_effects_def)
    have "\<not> (new_effects w w' = pre @ Request s h # post
            \<and> debugRequestAsync api (effects w @ pre) s h = Inl err)" for pre s h post err
      using answered_request[OF ans, of pre s h post] new by auto
    with eff new store Inr show ?thesis by simp
  next
    case (Inl err0)
    from bad[OF Inl] obtain h0 where
      eff: "effects w' = effects w @ events_of ?sid es @ [Request ?sid h0]"
      and rej: "debugRequestAsync api (effects w @ events_of ?sid es) ?sid h0 = Inl err0"
      by blast
    from eff have new: "new_effects w w' = events_of ?sid es @ [Request ?sid h0]"
      by (simp add: new_effects_def)
    have last: "r = Inl err \<and> post = []"
      if "new_effects w w' = pre @ Request s h # post"
        and "debugRequestAsync api (effects w @ pre) s h = Inl err" for pre s h post err
    proof -
      from that(1) new have "events_of ?sid es @ [Request ?sid h0] = pre @ Request s h # post"
        by simp
      from snoc_eq_split[OF this] show ?thesis
      proof
        assume "post = [] \<and> pre = events_of ?sid es \<and> Request ?sid h0 = Request s h"
        with that(2) rej Inl show ?thesis by simp
      next
        assume "\<exists>post'. post = post' @ [Request ?sid h0] \<and> events_of ?sid es = pre @ Request s h # post'"
        then obtain post' where "events_of ?sid es = pre @ Request s h # post'" by blast
        from answered_request[OF ans this] that(2) show ?thesis by simp
      qed
    qed
    from eff new store rej Inl last show ?thesis by simp
  qed
qed

theorem failed_request_fails_call_witness:
  "snd (defaultFetchVariablesStrategy (exampleApi [(1, [])]) (exampleCtx [1, 2]) 10 0 emptyWorld)
       = Inl (ProtocolRequestFailed ''unknown reference'')
   \<and> effects (fst (defaultFetchVariablesStrategy (exampleApi [(1, [])]) (exampleCtx [1, 2]) 10 0
        emptyWorld))
       = [Request ''s1'' 1, Dispatch ''s1'' [toVariablesEntity 1 []], Request ''s1'' 2]
   \<and> entities (app (fst (defaultFetchVariablesStrategy (exampleApi [(1, [])]) (exampleCtx [1, 2]) 10 0
        emptyWorld)))
       = [toVariablesEntity 1 []]"
  using failed_request_fails_call[where api = "exampleApi [(1, [])]"
      and ctx = "exampleCtx [1, 2]" and md = 10 and cd = 0 and w = emptyWorld,
      OF prod.collapse[symmetric]]
  by (simp add: example_defs run_defs)

section \<open>The handle zero\<close>

text \<open>
  Claim C6. No request of a call is a request for the handle 0, no node that is published
  or returned has the reference 0, and every child handle selected for a recursive call
  is greater than 0.
\<close>

theorem zero_never_requested:
  assumes "defaultFetchVariablesStrategy api ctx md cd w = (w', r)"
  shows "0 \<notin> set (requested (new_effects w w'))
     \<and> (\<forall>e \<in> set (published (new_effects w w')). reference e \<noteq> 0)
     \<and> (\<forall>vs. r = Inr vs \<longrightarrow> (\<forall>e \<in> set vs. reference e \<noteq> 0))
     \<and> (\<forall>c \<in> set (childRefsToFetch ctx rf known n). 0 < c)"
proof -
  from strategy_run[OF assms] obtain es where
    store: "app w' = publish_all api (sessionId ctx) es (app w)"
    and ans: "answered api (sessionId ctx) (effects w) es"
    and nz: "\<forall>e \<in> set es. reference e \<noteq> 0"
    and ok: "\<And>vs. r = Inr vs \<Longrightarrow> vs = es \<and> effects w' = effects w @ events_of (sessionId ctx) es"
    and bad: "\<And>err. r = Inl err \<Longrightarrow> \<exists>h. h \<noteq> 0
        \<and> effects w' = effects w @ events_of (sessionId ctx) es @ [Request (sessionId ctx) h]
        \<and> debugRequestAsync api (effects w @ events_of (sessionId ctx) es) (sessionId ctx) h = Inl err"
    by blast
  have kids: "\<forall>c \<in> set (childRefsToFetch ctx rf known n). 0 < c"
    by (auto simp: childRefsToFetch_def childFilter_def)
  show ?thesis
  proof (cases r)
    case (Inl err)
    from bad[OF Inl] obtain h where "h \<noteq> 0"
      and "effects w' = effects w @ events_of (sessionId ctx) es @ [Request (sessionId ctx) h]"
      by blast
    then have "new_effects w w' = events_of (sessionId ctx) es @ [Request (sessionId ctx) h]"
      by (simp add: new_effects_def)
    with nz \<open>h \<noteq> 0\<close> kids Inl show ?thesis by auto
  next
    case (Inr vs)
    from ok[OF Inr] have "new_effects w w' = events_of (sessionId ctx) es" "vs = es"
      by (simp_all add: new_effects_def)
    with nz kids Inr show ?thesis by auto
  qed
qed

theorem zero_never_requested_witness:
  "requested (new_effects emptyWorld
      (fst (defaultFetchVariablesStrategy (exampleApi scenarioAnswers) (exampleCtx [0, 100, 0]) 10 0
         emptyWorld))) = [100, 200]
   \<and> snd (defaultFetchVariablesStrategy (exampleApi scenarioAnswers) (exampleCtx [0, 100, 0]) 10 0
         emptyWorld)
       = Inr [toVariablesEntity 100 [var ''x'' ''5'' 0, var ''arr'' ''[1,2]'' 200],
              toVariablesEntity 200 []]
   \<and> childRefsToFetch (exampleCtx [0, 100, 0]) [100] []
        (toVariablesEntity 100 [var ''x'' ''5'' 0, var ''arr'' ''[1,2]'' 200]) = [200]"
  using zero_never_requested[where api = "exampleApi scenarioAnswers"
      and ctx = "exampleCtx [0, 100, 0]" and md = 10 and cd = 0 and w = emptyWorld,
      OF prod.collapse[symmetric]]
  by (simp add: example_defs run_defs)

section \<open>Publication before the next request\<close>

text \<open>
  Claim C7. In the effects of a call, every answered request is followed at once by the
  dispatch of its node, before any other request: the requests for the children of the
  node and for the next handle come after it.
\<close>

theorem node_published_before_next_request:
  "published_at_once api (effects w)
     (new_effects w (fst (defaultFetchVariablesStrategy api ctx md cd w)))"
proof -
  obtain w' r where run: "defaultFetchVariablesStrategy api ctx md cd w = (w', r)"
    by (cases "defaultFetchVariablesStrategy api ctx md cd w")
  from strategy_run[OF run] obtain es where
    store: "app w' = publish_all api (sessionId ctx) es (app w)"
    and ans: "answered api (sessionId ctx) (effects w) es"
    and nz: "\<forall>e \<in> set es. reference e \<noteq> 0"
    and ok: "\<And>vs. r = Inr vs \<Longrightarrow> vs = es \<and> effects w' = effects w @ events_of (sessionId ctx) es"
    and bad: "\<And>err. r = Inl err \<Longrightarrow> \<exists>h. h \<noteq> 0
        \<and> effects w' = effects w @ events_of (sessionId ctx) es @ [Request (sessionId ctx) h]
        \<and> debugRequestAsync api (effects w @ events_of (sessionId ctx) es) (sessionId ctx) h = Inl err"
    by blast
  have "published_at_once api (effects w) (new_effects w w')"
  proof (cases r)
    case (Inl err)
    from bad[OF Inl] obtain h where
      eff: "effects w' = effects w @ events_of (sessionId ctx) es @ [Request (sessionId ctx) h]"
      and rej: "debugRequestAsync api (effects w @ events_of (sessionId ctx) es) (sessionId ctx) h = Inl err"
      by blast
    from rej have "published_at_once api (effects w @ events_of (sessionId ctx) es)
        [Request (sessionId ctx) h]" by simp
    from published_at_once_events_of[OF ans this] eff show ?thesis
      by (simp add: new_effects_def)
  next
    case (Inr vs)
    have "published_at_once api (effects w @ events_of (sessionId ctx) es) []" by simp
    from published_at_once_events_of[OF ans this] ok[OF Inr] show ?thesis
      by (simp add: new_effects_def)
  qed
  with run show ?thesis by simp
qed

theorem node_published_before_next_request_witness:
  "published_at_once (exampleApi scenarioAnswers) []
     [Request ''s1'' 100,
      Dispatch ''s1'' [toVariablesEntity 100 [var ''x'' ''5'' 0, var ''arr'' ''[1,2]'' 200]],
      Request ''s1'' 200, Dispatch ''s1'' [toVariablesEntity 200 []]]
   \<and> new_effects emptyWorld
      (fst (defaultFetchVariablesStrategy (exampleApi scenarioAnswers) (exampleCtx [100]) 10 0
         emptyWorld))
     = [Request ''s1'' 100,
        Dispatch ''s1'' [toVariablesEntity 100 [var ''x'' ''5'' 0, var ''arr'' ''[1,2]'' 200]],
        Request ''s1'' 200, Dispatch ''s1'' [toVariablesEntity 200 []]]"
  using node_published_before_next_request[where api = "exampleApi scenarioAnswers"
      and ctx = "exampleCtx [100]" and md = 10 and cd = 0 and w = emptyWorld]
  by (simp add: example_defs run_defs)

section \<open>The context of the recursive call\<close>

text \<open>
  The recursive call gets the context of the caller with two fields replaced.
\<close>

lemma derived_context_fields:
  assumes "ref \<noteq> 0"
    and "debugRequestAsync api (effects w) (sessionId ctx) ref = Inr body"
    and "cd < md"
    and "childCtx = childContextArgs ctx
           (childRefsToFetch ctx (rf @ [ref]) (variables_ids api s) (toVariablesEntity ref body))
           (toVariablesEntity ref body)"
  shows "forEachRef api ctx md cd s rf (ref # rest) vars w =
      (case defaultFetchVariablesStrategy api childCtx md (cd + 1)
              (resolve api (sessionId ctx) ref body w) of
         (w2, Inl err) \<Rightarrow> (w2, Inl err)
       | (w2, Inr childVars) \<Rightarrow>
           forEachRef api ctx md cd s (rf @ [ref]) rest
             (vars @ toVariablesEntity ref body # childVars) w2)
    \<and> sessionId childCtx = sessionId ctx
    \<and> frame childCtx = frame ctx
    \<and> scope childCtx = scope ctx
    \<and> force childCtx = force ctx
    \<and> refsToFetch childCtx =
          childRefsToFetch ctx (rf @ [ref]) (variables_ids api s) (toVariablesEntity ref body)
    \<and> variable childCtx = Some (toVariablesEntity ref body)
    \<and> (scope ctx = None \<longrightarrow> variable childCtx = None \<or> scope childCtx = None)"
  using forEachRef_recurse[OF assms(1,2,3), of s rf rest vars]
  by (simp add: assms(4) childContextArgs_def)

text \<open>
  Claim C8 fails on a context that was reached from a scope. The context built for the
  recursive call copies the field \<open>scope\<close> and sets \<open>variable\<close>, so both are
  set, while the type documents \<open>scope\<close> as undefined when the variables are referenced
  from a parent variable.
\<close>

theorem derived_context_keeps_scope:
  "variable scopedCtx = None
   \<and> scope scopedCtx = Some ''Locals''
   \<and> debugRequestAsync (exampleApi scenarioAnswers) (effects emptyWorld) (sessionId scopedCtx) 100
       = Inr [var ''x'' ''5'' 0, var ''arr'' ''[1,2]'' 200]
   \<and> forEachRef (exampleApi scenarioAnswers) scopedCtx 10 0 (app emptyWorld) [] [100] [] emptyWorld =
      (case defaultFetchVariablesStrategy (exampleApi scenarioAnswers)
              (childContextArgs scopedCtx [200]
                 (toVariablesEntity 100 [var ''x'' ''5'' 0, var ''arr'' ''[1,2]'' 200]))
              10 1
              (resolve (exampleApi scenarioAnswers) ''s1'' 100
                 [var ''x'' ''5'' 0, var ''arr'' ''[1,2]'' 200] emptyWorld) of
         (w2, Inl err) \<Rightarrow> (w2, Inl err)
       | (w2, Inr childVars) \<Rightarrow>
           forEachRef (exampleApi scenarioAnswers) scopedCtx 10 0 (app emptyWorld) [100] []
             (toVariablesEntity 100 [var ''x'' ''5'' 0, var ''arr'' ''[1,2]'' 200] # childVars) w2)
   \<and> variable (childContextArgs scopedCtx [200]
          (toVariablesEntity 100 [var ''x'' ''5'' 0, var ''arr'' ''[1,2]'' 200]))
       = Some (toVariablesEntity 100 [var ''x'' ''5'' 0, var ''arr'' ''[1,2]'' 200])
   \<and> scope (childContextArgs scopedCtx [200]
          (toVariablesEntity 100 [var ''x'' ''5'' 0, var ''arr'' ''[1,2]'' 200]))
       = Some ''Locals''"
  by (simp add: example_defs run_defs)

section \<open>An empty list of handles\<close>

text \<open>
  Claim C9. With no handle to fetch the function returns the empty list and leaves the
  world as it was: no request, no dispatch. So the recursive call on an empty list of
  children does what the depth bound does, and the loop goes on with the next handle.
\<close>

theorem empty_refsToFetch_is_noop:
  "(refsToFetch ctx = [] \<longrightarrow> defaultFetchVariablesStrategy api ctx md cd w = (w, Inr []))
   \<and> (ref \<noteq> 0 \<and> debugRequestAsync api (effects w) (sessionId ctx) ref = Inr body \<and> cd < md
        \<and> childRefsToFetch ctx (rf @ [ref]) (variables_ids api s) (toVariablesEntity ref body) = []
      \<longrightarrow> forEachRef api ctx md cd s rf (ref # rest) vars w =
            forEachRef api ctx md cd s (rf @ [ref]) rest (vars @ [toVariablesEntity ref body])
              (resolve api (sessionId ctx) ref body w))"
  by (simp add: strategy_nil forEachRef_recurse)

theorem empty_refsToFetch_is_noop_witness:
  "refsToFetch (exampleCtx []) = []
   \<and> defaultFetchVariablesStrategy (exampleApi scenarioAnswers) (exampleCtx []) 10 0 emptyWorld
     = (emptyWorld, Inr [])
   \<and> (200::int) \<noteq> 0
   \<and> debugRequestAsync (exampleApi scenarioAnswers) (effects emptyWorld)
        (sessionId (exampleCtx [200])) 200 = Inr []
   \<and> (0::int) < 10
   \<and> childRefsToFetch (exampleCtx [200]) ([] @ [200])
        (variables_ids (exampleApi scenarioAnswers) (app emptyWorld)) (toVariablesEntity 200 []) = []
   \<and> forEachRef (exampleApi scenarioAnswers) (exampleCtx [200]) 10 0 (app emptyWorld) [] [200] []
        emptyWorld
     = forEachRef (exampleApi scenarioAnswers) (exampleCtx [200]) 10 0 (app emptyWorld) [200] []
         [toVariablesEntity 200 []] (resolve (exampleApi scenarioAnswers) ''s1'' 200 [] emptyWorld)"
  using empty_refsToFetch_is_noop[where api = "exampleApi scenarioAnswers" and ctx = "exampleCtx []"
      and md = 10 and cd = 0 and w = emptyWorld]
    empty_refsToFetch_is_noop[where api = "exampleApi scenarioAnswers" and ctx = "exampleCtx [200]"
      and md = 10 and cd = 0 and w = emptyWorld and ref = 200 and body = "[]" and rf = "[]"
      and s = "app emptyWorld" and rest = "[]" and vars = "[]"]
  by (simp add: example_defs run_defs)

section \<open>Handles that are not zero\<close>

text \<open>A call that returns has a node for every handle that is not zero.\<close>

lemma loop_nodes:
  assumes "forEachRef api ctx md cd s rf refs vars w = (w', Inr vs)"
    and "h \<in> set refs" and "h \<noteq> 0"
  shows "\<exists>e \<in> set vs. reference e = h"
  using assms(1,2)
proof (induction refs arbitrary: rf vars w)
  case Nil
  then show ?case by simp
next
  case (Cons ref rest)
  show ?case
  proof (cases "ref = 0")
    case True
    with Cons.prems assms(3) have "forEachRef api ctx md cd s rf rest vars w = (w', Inr vs)"
      and "h \<in> set rest" by auto
    then show ?thesis by (rule Cons.IH)
  next
    case nz: False
    show ?thesis
    proof (cases "debugRequestAsync api (effects w) (sessionId ctx) ref")
      case (Inl err)
      with Cons.prems(1) nz show ?thesis by (simp add: forEachRef_failed)
    next
      case (Inr body)
      let ?n = "toVariablesEntity ref body"
      let ?w1 = "resolve api (sessionId ctx) ref body w"
      have "\<exists>vars2 w2. forEachRef api ctx md cd s (rf @ [ref]) rest vars2 w2 = (w', Inr vs)
              \<and> ?n \<in> set vars2"
      proof (cases "md \<le> cd")
        case True
        from Cons.prems(1) show ?thesis
          unfolding forEachRef_cut[OF nz Inr True] by (intro exI[of _ "vars @ [?n]"] exI[of _ ?w1]) simp
      next
        case False
        then have lt: "cd < md" by simp
        let ?child = "defaultFetchVariablesStrategy api
            (childContextArgs ctx (childRefsToFetch ctx (rf @ [ref]) (variables_ids api s) ?n) ?n)
            md (cd + 1) ?w1"
        obtain w2 r2 where child: "?child = (w2, r2)" by (cases ?child)
        show ?thesis
        proof (cases r2)
          case (Inl err)
          with Cons.prems(1) child show ?thesis
            unfolding forEachRef_recurse[OF nz Inr lt] by simp
        next
          case (Inr cv)
          with Cons.prems(1) child show ?thesis
            unfolding forEachRef_recurse[OF nz \<open>debugRequestAsync api (effects w) (sessionId ctx) ref = Inr body\<close> lt]
            by (intro exI[of _ "vars @ ?n # cv"] exI[of _ w2]) simp
        qed
      qed
      then obtain vars2 w2 where
        rest: "forEachRef api ctx md cd s (rf @ [ref]) rest vars2 w2 = (w', Inr vs)"
        and n: "?n \<in> set vars2" by blast
      show ?thesis
      proof (cases "h = ref")
        case True
        from forEachRef_returns_vars[OF rest] n have "?n \<in> set vs" by blast
        with True show ?thesis by (intro bexI[of _ ?n]) simp_all
      next
        case False
        with Cons.prems(2) have "h \<in> set rest" by simp
        from Cons.IH[OF rest this] show ?thesis .
      qed
    qed
  qed
qed

text \<open>What the loop does with the handle at its head.\<close>

lemma forEachRef_head:
  assumes "ref \<noteq> 0" and "forEachRef api ctx md cd s rf (ref # rest) vars w = (w', r)"
  shows "prefix (effects w @ [Request (sessionId ctx) ref]) (effects w')
     \<and> (\<forall>err. debugRequestAsync api (effects w) (sessionId ctx) ref = Inl err \<longrightarrow>
           w' = request (sessionId ctx) ref w \<and> r = Inl err)
     \<and> (\<forall>body. debugRequestAsync api (effects w) (sessionId ctx) ref = Inr body \<longrightarrow>
           prefix (effects w @ [Request (sessionId ctx) ref,
                                Dispatch (sessionId ctx) [toVariablesEntity ref body]])
             (effects w')
           \<and> (\<forall>vs. r = Inr vs \<longrightarrow> prefix (vars @ [toVariablesEntity ref body]) vs))"
proof (cases "debugRequestAsync api (effects w) (sessionId ctx) ref")
  case (Inl err)
  from assms(2) have "w' = request (sessionId ctx) ref w" "r = Inl err"
    unfolding forEachRef_failed[OF assms(1) Inl] by simp_all
  with Inl show ?thesis by simp
next
  case (Inr body)
  let ?n = "toVariablesEntity ref body"
  let ?w1 = "resolve api (sessionId ctx) ref body w"
  have "(\<exists>vars2 w2. forEachRef api ctx md cd s (rf @ [ref]) rest vars2 w2 = (w', r)
          \<and> prefix (effects ?w1) (effects w2) \<and> prefix (vars @ [?n]) vars2)
        \<or> (\<exists>err. r = Inl err) \<and> prefix (effects ?w1) (effects w')"
  proof (cases "md \<le> cd")
    case True
    from assms(2) have "forEachRef api ctx md cd s (rf @ [ref]) rest (vars @ [?n]) ?w1 = (w', r)"
      unfolding forEachRef_cut[OF assms(1) Inr True] .
    then show ?thesis by (intro disjI1 exI[of _ "vars @ [?n]"] exI[of _ ?w1]) simp
  next
    case False
    then have lt: "cd < md" by simp
    let ?child = "defaultFetchVariablesStrategy api
        (childContextArgs ctx (childRefsToFetch ctx (rf @ [ref]) (variables_ids api s) ?n) ?n)
        md (cd + 1) ?w1"
    obtain w2 r2 where child: "?child = (w2, r2)" by (cases ?child)
    from strategy_extends[OF child] have ext: "prefix (effects ?w1) (effects w2)"
      by (metis prefixI)
    show ?thesis
    proof (cases r2)
      case (Inl err)
      with assms(2) child have "w' = w2" "r = Inl err"
        unfolding forEachRef_recurse[OF assms(1) Inr lt] by simp_all
      with ext show ?thesis by blast
    next
      case r2: (Inr cv)
      with assms(2) child
      have "forEachRef api ctx md cd s (rf @ [ref]) rest (vars @ ?n # cv) w2 = (w', r)"
        unfolding forEachRef_recurse[OF assms(1) Inr lt] by simp
      with ext show ?thesis
        by (intro disjI1 exI[of _ "vars @ ?n # cv"] exI[of _ w2]) (simp add: prefix_def)
    qed
  qed
  then have "prefix (effects ?w1) (effects w') \<and> (\<forall>vs. r = Inr vs \<longrightarrow> prefix (vars @ [?n]) vs)"
  proof (rule disjE)
    assume "\<exists>vars2 w2. forEachRef api ctx md cd s (rf @ [ref]) rest vars2 w2 = (w', r)
          \<and> prefix (effects ?w1) (effects w2) \<and> prefix (vars @ [?n]) vars2"
    then obtain vars2 w2 where
      rest: "forEachRef api ctx md cd s (rf @ [ref]) rest vars2 w2 = (w', r)"
      and e: "prefix (effects ?w1) (effects w2)" and v: "prefix (vars @ [?n]) vars2" by blast
    from forEachRef_extends[OF rest] have "prefix (effects w2) (effects w')" by (metis prefixI)
    with e have 1: "prefix (effects ?w1) (effects w')" by (rule prefix_order.trans)
    have 2: "prefix (vars @ [?n]) vs" if "r = Inr vs" for vs
    proof -
      from forEachRef_run[OF rest] that obtain es where "vs = vars2 @ es" by blast
      then have "prefix vars2 vs" by simp
      with v show ?thesis by (rule prefix_order.trans)
    qed
    from 1 2 show ?thesis by blast
  next
    assume "(\<exists>err. r = Inl err) \<and> prefix (effects ?w1) (effects w')"
    then show ?thesis by auto
  qed
  then have big: "prefix (effects w @ [Request (sessionId ctx) ref, Dispatch (sessionId ctx) [?n]])
        (effects w')"
    and ret: "\<forall>vs. r = Inr vs \<longrightarrow> prefix (vars @ [?n]) vs" by simp_all
  have "prefix (effects w @ [Request (sessionId ctx) ref])
      (effects w @ [Request (sessionId ctx) ref, Dispatch (sessionId ctx) [?n]])" by simp
  from this big have small: "prefix (effects w @ [Request (sessionId ctx) ref]) (effects w')"
    by (rule prefix_order.trans)
  from small big ret Inr show ?thesis by simp
qed

text \<open>
  Claim C10, as amended. Only the value 0 is skipped. For a handle \<open>h\<close> of
  \<open>refsToFetch\<close> that is not zero, negative ones too: once the loop has gone through
  the handles before \<open>h\<close>, the request for \<open>h\<close> is the next effect; if the adapter
  answers it, the node is published at once and is in the list that a returning call
  returns; if the adapter rejects it, the call stops there with the error. The loop fails
  to reach \<open>h\<close> only when the work on an earlier handle failed, and then the call
  fails with that error. So in a call that returns, every such handle was requested and
  has a node that was returned and published. Only children are required to be greater
  than zero: a descriptor whose reference is zero or negative never passes the filter.
\<close>

theorem nonzero_handles_are_fetched:
  assumes "defaultFetchVariablesStrategy api ctx md cd w = (w', r)"
    and "refsToFetch ctx = pre @ h # post" and "h \<noteq> 0"
  shows "(\<forall>w1 vars1.
            forEachRef api ctx md cd (selectSessionState api (app w) (sessionId ctx))
              (selectReferences api (selectSessionState api (app w) (sessionId ctx)))
              pre [] w = (w1, Inr vars1) \<longrightarrow>
            prefix (effects w1 @ [Request (sessionId ctx) h]) (effects w')
            \<and> (\<forall>err. debugRequestAsync api (effects w1) (sessionId ctx) h = Inl err \<longrightarrow>
                  w' = request (sessionId ctx) h w1 \<and> r = Inl err)
            \<and> (\<forall>body. debugRequestAsync api (effects w1) (sessionId ctx) h = Inr body \<longrightarrow>
                  prefix (effects w1 @ [Request (sessionId ctx) h,
                                        Dispatch (sessionId ctx) [toVariablesEntity h body]])
                    (effects w')
                  \<and> (\<forall>vs. r = Inr vs \<longrightarrow> prefix (vars1 @ [toVariablesEntity h body]) vs)))
     \<and> (\<forall>w1 err.
            forEachRef api ctx md cd (selectSessionState api (app w) (sessionId ctx))
              (selectReferences api (selectSessionState api (app w) (sessionId ctx)))
              pre [] w = (w1, Inl err) \<longrightarrow> w' = w1 \<and> r = Inl err)
     \<and> (\<forall>vs. r = Inr vs \<longrightarrow>
            Request (sessionId ctx) h \<in> set (new_effects w w')
            \<and> (\<exists>e \<in> set vs. reference e = h
                  \<and> Dispatch (sessionId ctx) [e] \<in> set (new_effects w w')))
     \<and> (variablesReference v \<le> 0 \<longrightarrow> \<not> childFilter ctx rf known v)"
proof -
  let ?s = "selectSessionState api (app w) (sessionId ctx)"
  let ?rf = "selectReferences api ?s"
  note split = strategy_split[OF assms(2), of api md cd w]
  have reach: "prefix (effects w1 @ [Request (sessionId ctx) h]) (effects w')
            \<and> (\<forall>err. debugRequestAsync api (effects w1) (sessionId ctx) h = Inl err \<longrightarrow>
                  w' = request (sessionId ctx) h w1 \<and> r = Inl err)
            \<and> (\<forall>body. debugRequestAsync api (effects w1) (sessionId ctx) h = Inr body \<longrightarrow>
                  prefix (effects w1 @ [Request (sessionId ctx) h,
                                        Dispatch (sessionId ctx) [toVariablesEntity h body]])
                    (effects w')
                  \<and> (\<forall>vs. r = Inr vs \<longrightarrow> prefix (vars1 @ [toVariablesEntity h body]) vs))"
    if pre: "forEachRef api ctx md cd ?s ?rf pre [] w = (w1, Inr vars1)" for w1 vars1
  proof -
    from split assms(1) pre
    have "forEachRef api ctx md cd ?s (?rf @ filter (\<lambda>h. h \<noteq> 0) pre) (h # post) vars1 w1 = (w', r)"
      by simp
    from forEachRef_head[OF assms(3) this] show ?thesis .
  qed
  have stop: "w' = w1 \<and> r = Inl err"
    if "forEachRef api ctx md cd ?s ?rf pre [] w = (w1, Inl err)" for w1 err
    using split assms(1) that by simp
  have ret: "Request (sessionId ctx) h \<in> set (new_effects w w')
            \<and> (\<exists>e \<in> set vs. reference e = h
                  \<and> Dispatch (sessionId ctx) [e] \<in> set (new_effects w w'))"
    if r: "r = Inr vs" for vs
  proof -
    from assms(1) r have run: "defaultFetchVariablesStrategy api ctx md cd w = (w', Inr vs)" by simp
    then have loop: "forEachRef api ctx md cd ?s ?rf (refsToFetch ctx) [] w = (w', Inr vs)"
      by (simp add: strategy_unfold)
    from assms(2) have mem: "h \<in> set (refsToFetch ctx)" by simp
    from loop_nodes[OF loop mem assms(3)] obtain e where e: "e \<in> set vs" "reference e = h" by blast
    from strategy_run[OF run] obtain es where
      "\<forall>vs'. Inr vs = Inr vs' \<longrightarrow> vs' = es \<and> effects w' = effects w @ events_of (sessionId ctx) es"
      by blast
    then have "vs = es" and "effects w' = effects w @ events_of (sessionId ctx) es" by simp_all
    then have new: "new_effects w w' = events_of (sessionId ctx) vs" by (simp add: new_effects_def)
    from events_of_member[OF e(1), of "sessionId ctx"] e(2)
    have "Request (sessionId ctx) h \<in> set (events_of (sessionId ctx) vs)"
      and "Dispatch (sessionId ctx) [e] \<in> set (events_of (sessionId ctx) vs)" by simp_all
    with e new show ?thesis by (simp only:) blast
  qed
  have neg: "variablesReference v \<le> 0 \<longrightarrow> \<not> childFilter ctx rf known v"
    by (simp add: childFilter_def)
  from reach stop ret neg show ?thesis by blast
qed

theorem nonzero_handles_are_fetched_witness:
  "defaultFetchVariablesStrategy (exampleApi [(-3, [])]) (exampleCtx [-3, 5]) 10 0 emptyWorld
     = (\<lparr>app = \<lparr>ids = [], entities = [toVariablesEntity (-3) []]\<rparr>,
         effects = [Request ''s1'' (-3), Dispatch ''s1'' [toVariablesEntity (-3) []],
                    Request ''s1'' 5]\<rparr>,
        Inl (ProtocolRequestFailed ''unknown reference''))
   \<and> refsToFetch (exampleCtx [-3, 5]) = [] @ (-3) # [5]
   \<and> (-3::int) \<noteq> 0
   \<and> forEachRef (exampleApi [(-3, [])]) (exampleCtx [-3, 5]) 10 0 (app emptyWorld) [] [] []
        emptyWorld = (emptyWorld, Inr [])
   \<and> debugRequestAsync (exampleApi [(-3, [])]) (effects emptyWorld) ''s1'' (-3) = Inr []
   \<and> prefix ([] @ [Request ''s1'' (-3), Dispatch ''s1'' [toVariablesEntity (-3) []]])
        (effects (fst (defaultFetchVariablesStrategy (exampleApi [(-3, [])]) (exampleCtx [-3, 5])
           10 0 emptyWorld)))
   \<and> defaultFetchVariablesStrategy (exampleApi [(-3, []), (7, [])]) (exampleCtx [-3, 0, 7]) 10 0
        emptyWorld
     = (\<lparr>app = \<lparr>ids = [], entities = [toVariablesEntity (-3) [], toVariablesEntity 7 []]\<rparr>,
         effects = [Request ''s1'' (-3), Dispatch ''s1'' [toVariablesEntity (-3) []],
                    Request ''s1'' 7, Dispatch ''s1'' [toVariablesEntity 7 []]]\<rparr>,
        Inr [toVariablesEntity (-3) [], toVariablesEntity 7 []])
   \<and> refsToFetch (exampleCtx [-3, 0, 7]) = [] @ (-3) # [0, 7]
   \<and> Request ''s1'' (-3) \<in> set (new_effects emptyWorld
        (fst (defaultFetchVariablesStrategy (exampleApi [(-3, []), (7, [])]) (exampleCtx [-3, 0, 7])
           10 0 emptyWorld)))
   \<and> \<not> childFilter (exampleCtx [-3, 0, 7]) [] [] (var ''neg'' ''n'' (-3))"
proof -
  have run1: "defaultFetchVariablesStrategy (exampleApi [(-3, [])]) (exampleCtx [-3, 5]) 10 0 emptyWorld
     = (\<lparr>app = \<lparr>ids = [], entities = [toVariablesEntity (-3) []]\<rparr>,
         effects = [Request ''s1'' (-3), Dispatch ''s1'' [toVariablesEntity (-3) []],
                    Request ''s1'' 5]\<rparr>,
        Inl (ProtocolRequestFailed ''unknown reference''))"
    by (simp add: example_defs run_defs)
  have split1: "refsToFetch (exampleCtx [-3, 5]) = [] @ (-3) # [5]"
    by (simp add: example_defs)
  have run2: "defaultFetchVariablesStrategy (exampleApi [(-3, []), (7, [])]) (exampleCtx [-3, 0, 7]) 10 0
        emptyWorld
     = (\<lparr>app = \<lparr>ids = [], entities = [toVariablesEntity (-3) [], toVariablesEntity 7 []]\<rparr>,
         effects = [Request ''s1'' (-3), Dispatch ''s1'' [toVariablesEntity (-3) []],
                    Request ''s1'' 7, Dispatch ''s1'' [toVariablesEntity 7 []]]\<rparr>,
        Inr [toVariablesEntity (-3) [], toVariablesEntity 7 []])"
    by (simp add: example_defs run_defs)
  have split2: "refsToFetch (exampleCtx [-3, 0, 7]) = [] @ (-3) # [0, 7]"
    by (simp add: example_defs)
  have nz: "(-3::int) \<noteq> 0" by simp
  from nonzero_handles_are_fetched[OF run1 split1 nz]
    nonzero_handles_are_fetched[OF run2 split2 nz, where v = "var ''neg'' ''n'' (-3)" and rf = "[]"
      and known = "[]"]
    run1 split1 run2 split2 nz
  show ?thesis
    by (simp add: example_defs run_defs)
qed

text \<open>
  Claim C10 as stated does not hold when a request is rejected: the call stops, and the
  handles after the rejected one are not requested although they are not zero.
\<close>

theorem rejected_request_stops_later_handles:
  "(7::int) \<in> set (refsToFetch (exampleCtx [5, 7]))
   \<and> (7::int) \<noteq> 0
   \<and> snd (defaultFetchVariablesStrategy (exampleApi [(7, [])]) (exampleCtx [5, 7]) 10 0 emptyWorld)
       = Inl (ProtocolRequestFailed ''unknown reference'')
   \<and> requested (new_effects emptyWorld
        (fst (defaultFetchVariablesStrategy (exampleApi [(7, [])]) (exampleCtx [5, 7]) 10 0
           emptyWorld))) = [5]
   \<and> published (new_effects emptyWorld
        (fst (defaultFetchVariablesStrategy (exampleApi [(7, [])]) (exampleCtx [5, 7]) 10 0
           emptyWorld))) = []"
  by (simp add: example_defs run_defs)

end
